theory Spec2Isabelle
  imports Main "HOL-Library.Sublist"
begin

section \<open>Go values shared by the three subsystems\<close>

text \<open>
  A Go \<^verbatim>\<open>string\<close> is a sequence of bytes; it is modelled as \<^typ>\<open>string\<close>, one
  \<^typ>\<open>char\<close> per byte. A Go \<^verbatim>\<open>error\<close> is either a plain message
  (\<^verbatim>\<open>errors.New\<close>, \<^verbatim>\<open>fmt.Errorf\<close> without \<^verbatim>\<open>%w\<close>) or a message wrapping a cause
  (\<^verbatim>\<open>fmt.Errorf\<close> with \<^verbatim>\<open>%w\<close>); a nil error is \<^term>\<open>None\<close>.
\<close>

datatype error = errorString string | wrapError string error

fun Error :: "error \<Rightarrow> string" where
  "Error (errorString s) = s"
| "Error (wrapError s cause) = s"

fun Unwrap :: "error \<Rightarrow> error option" where
  "Unwrap (errorString s) = None"
| "Unwrap (wrapError s cause) = Some cause"

definition quoted :: "string \<Rightarrow> string" where
  \<comment> \<open>the format fragment \<^verbatim>\<open>'%s'\<close>\<close>
  "quoted s = CHR 0x27 # s @ [CHR 0x27]"

subsection \<open>The functions of package strings that the code calls\<close>

definition HasPrefix :: "string \<Rightarrow> string \<Rightarrow> bool" where
  "HasPrefix s p = (length s \<ge> length p \<and> take (length p) s = p)"

definition HasSuffix :: "string \<Rightarrow> string \<Rightarrow> bool" where
  "HasSuffix s suf = (length s \<ge> length suf \<and> drop (length s - length suf) s = suf)"

definition TrimPrefix :: "string \<Rightarrow> string \<Rightarrow> string" where
  "TrimPrefix s p = (if HasPrefix s p then drop (length p) s else s)"

definition TrimSuffix :: "string \<Rightarrow> string \<Rightarrow> string" where
  "TrimSuffix s suf = (if HasSuffix s suf then take (length s - length suf) s else s)"

fun Contains :: "string \<Rightarrow> string \<Rightarrow> bool" where
  "Contains [] sub = (sub = [])"
| "Contains (c # s) sub = (HasPrefix (c # s) sub \<or> Contains s sub)"

text \<open>
  \<^verbatim>\<open>strings.TrimSpace\<close> removes the leading and the trailing runes for which
  \<^verbatim>\<open>unicode.IsSpace\<close> holds. On bytes, a string begins (ends) with such a rune exactly when it
  begins (ends) with the UTF-8 encoding of one of the white space code points: the six
  ASCII ones, U+0085, U+00A0, U+1680, U+2000 to U+200A, U+2028, U+2029, U+202F, U+205F and
  U+3000. A byte that is not part of a valid encoding decodes to U+FFFD, which is not
  white space.
\<close>

definition spaceEncodings :: "string list" where
  "spaceEncodings =
    [[CHR 0x09], [CHR 0x0A], [CHR 0x0B], [CHR 0x0C], [CHR 0x0D], [CHR 0x20],
     [CHR 0xC2, CHR 0x85], [CHR 0xC2, CHR 0xA0],
     [CHR 0xE1, CHR 0x9A, CHR 0x80],
     [CHR 0xE2, CHR 0x80, CHR 0x80], [CHR 0xE2, CHR 0x80, CHR 0x81],
     [CHR 0xE2, CHR 0x80, CHR 0x82], [CHR 0xE2, CHR 0x80, CHR 0x83],
     [CHR 0xE2, CHR 0x80, CHR 0x84], [CHR 0xE2, CHR 0x80, CHR 0x85],
     [CHR 0xE2, CHR 0x80, CHR 0x86], [CHR 0xE2, CHR 0x80, CHR 0x87],
     [CHR 0xE2, CHR 0x80, CHR 0x88], [CHR 0xE2, CHR 0x80, CHR 0x89],
     [CHR 0xE2, CHR 0x80, CHR 0x8A],
     [CHR 0xE2, CHR 0x80, CHR 0xA8], [CHR 0xE2, CHR 0x80, CHR 0xA9],
     [CHR 0xE2, CHR 0x80, CHR 0xAF], [CHR 0xE2, CHR 0x81, CHR 0x9F],
     [CHR 0xE3, CHR 0x80, CHR 0x80]]"

definition leadingSpace :: "string \<Rightarrow> nat" where
  \<comment> \<open>width in bytes of the white space rune the string begins with, 0 if there is none\<close>
  "leadingSpace s =
     (case find (\<lambda>e. HasPrefix s e) spaceEncodings of None \<Rightarrow> 0 | Some e \<Rightarrow> length e)"

definition trailingSpace :: "string \<Rightarrow> nat" where
  \<comment> \<open>width in bytes of the white space rune the string ends with, 0 if there is none\<close>
  "trailingSpace s =
     (case find (\<lambda>e. HasSuffix s e) spaceEncodings of None \<Rightarrow> 0 | Some e \<Rightarrow> length e)"

function TrimLeftSpace :: "string \<Rightarrow> string" where
  "TrimLeftSpace s =
     (if leadingSpace s = 0 then s else TrimLeftSpace (drop (leadingSpace s) s))"
  by pat_completeness auto
termination
proof (relation "measure length")
  show "wf (measure length)" by simp
next
  fix s :: string
  assume "leadingSpace s \<noteq> 0"
  then obtain e where "find (\<lambda>e. HasPrefix s e) spaceEncodings = Some e"
    and "leadingSpace s = length e"
    by (auto simp: leadingSpace_def split: option.splits)
  then have "leadingSpace s \<le> length s"
    by (auto simp: find_Some_iff HasPrefix_def)
  with \<open>leadingSpace s \<noteq> 0\<close>
  show "(drop (leadingSpace s) s, s) \<in> measure length" by simp
qed

function TrimRightSpace :: "string \<Rightarrow> string" where
  "TrimRightSpace s =
     (if trailingSpace s = 0 then s
      else TrimRightSpace (take (length s - trailingSpace s) s))"
  by pat_completeness auto
termination
proof (relation "measure length")
  show "wf (measure length)" by simp
next
  fix s :: string
  assume "trailingSpace s \<noteq> 0"
  then obtain e where "find (\<lambda>e. HasSuffix s e) spaceEncodings = Some e"
    and "trailingSpace s = length e"
    by (auto simp: trailingSpace_def split: option.splits)
  then have "trailingSpace s \<le> length s"
    by (auto simp: find_Some_iff HasSuffix_def)
  with \<open>trailingSpace s \<noteq> 0\<close>
  show "(take (length s - trailingSpace s) s, s) \<in> measure length" by simp
qed

definition TrimSpace :: "string \<Rightarrow> string" where
  "TrimSpace s = TrimRightSpace (TrimLeftSpace s)"

section \<open>Permission rules (permissions.go)\<close>

record PermissionResult =
  Behavior :: string
  Message :: string

definition PermissionAllow :: string where "PermissionAllow = ''allow''"
definition PermissionDeny :: string where "PermissionDeny = ''deny''"
definition PermissionAsk :: string where "PermissionAsk = ''ask''"

definition Allow :: PermissionResult where
  "Allow = \<lparr>Behavior = PermissionAllow, Message = ''''\<rparr>"

definition Deny :: "string \<Rightarrow> PermissionResult" where
  "Deny message = \<lparr>Behavior = PermissionDeny, Message = message\<rparr>"

definition Ask :: "string \<Rightarrow> PermissionResult" where
  "Ask message = \<lparr>Behavior = PermissionAsk, Message = message\<rparr>"

text \<open>
  The tool input that callbacks and plugins receive. The values of the raw map are Go
  \<^verbatim>\<open>interface{}\<close> values; their type \<^typ>\<open>'v\<close> is left open.
\<close>

record 'v ToolInput =
  Command :: string
  FilePath :: string
  Pattern :: string
  Content :: string
  OldString :: string
  NewString :: string
  Raw :: "string \<rightharpoonup> 'v"

definition zeroToolInput :: "'v ToolInput" where
  \<comment> \<open>the composite literal \<^verbatim>\<open>ToolInput{}\<close>\<close>
  "zeroToolInput =
     \<lparr>Command = '''', FilePath = '''', Pattern = '''', Content = '''', OldString = '''',
      NewString = '''', Raw = Map.empty\<rparr>"

record ToolPermission =
  Tool :: string
  Command :: string
  Pattern :: string
  Original :: string

subsection \<open>ParseToolPermission\<close>

definition notColonParen :: "char \<Rightarrow> bool" where
  \<comment> \<open>the character class \<^verbatim>\<open>[^:)]\<close>\<close>
  "notColonParen c = (c \<noteq> CHR '':'' \<and> c \<noteq> CHR '')'')"

definition notParen :: "char \<Rightarrow> bool" where
  \<comment> \<open>the character class \<^verbatim>\<open>[^(]\<close>\<close>
  "notParen c = (c \<noteq> CHR ''('')"

text \<open>
  \<^verbatim>\<open>re.FindStringSubmatch(permission)\<close> for the one regular expression of the code,
  \<^verbatim>\<open>^([^(]+)\(([^:)]+)(?::([^:)]+))?\)$\<close>. The expression is anchored at both ends and each
  group is a maximal run of a negated class followed by a character outside that class,
  so a match, when there is one, is unique: the tool is the run before the first
  \<^verbatim>\<open>(\<close>, the command the run up to the first \<^verbatim>\<open>:\<close> or \<^verbatim>\<open>)\<close>, and the optional pattern
  the run after the \<^verbatim>\<open>:\<close>, which must end at the final \<^verbatim>\<open>)\<close>. The result is the empty
  slice when the string does not match, and the whole match followed by the three groups
  (the third empty when it did not take part) when it does.
\<close>

definition FindStringSubmatch :: "string \<Rightarrow> string list" where
  "FindStringSubmatch s =
     (let tool = takeWhile notParen s;
          r1 = dropWhile notParen s
      in if tool = [] \<or> r1 = [] then []
         else
           let r2 = tl r1;
               command = takeWhile notColonParen r2;
               r3 = dropWhile notColonParen r2
           in if command = [] then []
              else if r3 = '')'' then [s, tool, command, '''']
              else if r3 = [] \<or> hd r3 \<noteq> CHR '':'' then []
              else
                let r4 = tl r3;
                    pattern = takeWhile notColonParen r4;
                    r5 = dropWhile notColonParen r4
                in if pattern \<noteq> [] \<and> r5 = '')'' then [s, tool, command, pattern]
                   else [])"

definition ParseToolPermission :: "string \<Rightarrow> error + ToolPermission" where
  "ParseToolPermission permission =
     (if permission = '''' then Inl (errorString ''empty permission string'')
      else if \<not> Contains permission ''(''
      then Inr \<lparr>Tool = TrimSpace permission, Command = '''', Pattern = '''',
                Original = permission\<rparr>
      else
        let matches = FindStringSubmatch permission
        in if length matches < 3
           then Inl (errorString (''invalid tool permission format: '' @ permission @
                  '' (expected format: Tool(command) or Tool(command:pattern))''))
           else
             let tool = TrimSpace (matches ! 1);
                 command = TrimSpace (matches ! 2);
                 pattern = (if length matches > 3 \<and> matches ! 3 \<noteq> ''''
                            then TrimSpace (matches ! 3) else '''')
             in if tool = ''''
                then Inl (errorString
                       (''tool name cannot be empty in permission: '' @ permission))
                else if command = ''''
                then Inl (errorString
                       (''command cannot be empty in permission: '' @ permission))
                else Inr \<lparr>Tool = tool, Command = command, Pattern = pattern,
                          Original = permission\<rparr>)"

subsection \<open>Matching\<close>

definition HasCommand :: "ToolPermission \<Rightarrow> bool" where
  "HasCommand tp = (Command tp \<noteq> '''')"

definition HasPattern :: "ToolPermission \<Rightarrow> bool" where
  "HasPattern tp = (Pattern tp \<noteq> '''')"

definition IsLegacyFormat :: "ToolPermission \<Rightarrow> bool" where
  "IsLegacyFormat tp = (Command tp = '''' \<and> Pattern tp = '''')"

definition MatchesTool :: "ToolPermission \<Rightarrow> string \<Rightarrow> bool" where
  "MatchesTool tp tool = (Tool tp = tool)"

definition MatchesCommand :: "ToolPermission \<Rightarrow> string \<Rightarrow> bool" where
  "MatchesCommand tp command = (if \<not> HasCommand tp then True else Command tp = command)"

definition MatchesPattern :: "ToolPermission \<Rightarrow> string \<Rightarrow> bool" where
  "MatchesPattern tp path =
     (if \<not> HasPattern tp then True
      else if Pattern tp = ''*'' then True
      else if Pattern tp = path then True
      else if HasSuffix (Pattern tp) ''**''
      then HasPrefix path (TrimSuffix (Pattern tp) ''**'')
      else if HasSuffix (Pattern tp) ''*''
      then HasPrefix path (TrimSuffix (Pattern tp) ''*'')
      else if HasPrefix (Pattern tp) ''*''
      then HasSuffix path (TrimPrefix (Pattern tp) ''*'')
      else False)"

definition Matches :: "ToolPermission \<Rightarrow> string \<Rightarrow> string \<Rightarrow> string \<Rightarrow> bool" where
  "Matches tp tool command path =
     (MatchesTool tp tool \<and> MatchesCommand tp command \<and> MatchesPattern tp path)"

text \<open>
  The decision sequence of the specification for \<^verbatim>\<open>MatchesPattern\<close>, in its own words:
  ``starts with'' and ``ends with'' are the prefix and suffix orders on lists, ``the
  pattern minus its trailing \<^verbatim>\<open>**\<close>'' drops the last two characters, ``minus that \<^verbatim>\<open>*\<close>''
  the last one, and ``minus that leading \<^verbatim>\<open>*\<close>'' the first one.
\<close>

definition MatchesPattern_spec :: "string \<Rightarrow> string \<Rightarrow> bool" where
  "MatchesPattern_spec pat path =
     (if pat = '''' then True
      else if pat = ''*'' then True
      else if pat = path then True
      else if suffix ''**'' pat then prefix (butlast (butlast pat)) path
      else if suffix ''*'' pat then prefix (butlast pat) path
      else if prefix ''*'' pat then suffix (tl pat) path
      else False)"

subsection \<open>ChainCallbacks\<close>

text \<open>
  A permission callback is a Go closure: besides its result it may change state of its
  own (a call counter, a log). That state is the explicit component \<^typ>\<open>'w\<close>, threaded
  through the calls in the order in which the code makes them. The context is passed on
  untouched, so its type \<^typ>\<open>'c\<close> is left open. A nil callback is \<^term>\<open>None\<close>.
\<close>

type_synonym ('c, 'v, 'w) PermissionCallback =
  "'c \<Rightarrow> string \<Rightarrow> 'v ToolInput \<Rightarrow> 'w \<Rightarrow> (PermissionResult \<times> error option) \<times> 'w"

fun ChainCallbacks ::
  "('c, 'v, 'w) PermissionCallback option list \<Rightarrow> ('c, 'v, 'w) PermissionCallback" where
  "ChainCallbacks [] ctx toolName input w = ((Allow, None), w)"
| "ChainCallbacks (None # callbacks) ctx toolName input w =
     ChainCallbacks callbacks ctx toolName input w"
| "ChainCallbacks (Some cb # callbacks) ctx toolName input w =
     (case cb ctx toolName input w of
        ((result, Some err), w') \<Rightarrow> ((\<lparr>Behavior = '''', Message = ''''\<rparr>, Some err), w')
      | ((result, None), w') \<Rightarrow>
          if Behavior result \<noteq> PermissionAllow then ((result, None), w')
          else ChainCallbacks callbacks ctx toolName input w')"

text \<open>
  \<open>allAllow callbacks ctx toolName input w = Some w'\<close>: called one after the other from
  the state \<open>w\<close>, every non-nil callback of the list returns \<^verbatim>\<open>allow\<close> without an error,
  and the state after the last one is \<open>w'\<close>.
\<close>

fun allAllow ::
  "('c, 'v, 'w) PermissionCallback option list \<Rightarrow> 'c \<Rightarrow> string \<Rightarrow> 'v ToolInput \<Rightarrow> 'w \<Rightarrow> 'w option" where
  "allAllow [] ctx toolName input w = Some w"
| "allAllow (None # callbacks) ctx toolName input w = allAllow callbacks ctx toolName input w"
| "allAllow (Some cb # callbacks) ctx toolName input w =
     (case cb ctx toolName input w of
        ((result, None), w') \<Rightarrow>
          if Behavior result = PermissionAllow then allAllow callbacks ctx toolName input w'
          else None
      | ((result, Some err), w') \<Rightarrow> None)"

text \<open>
  Two callbacks in the manner of the repository's tests: one that returns a fixed answer
  and leaves the state alone, one that returns a fixed answer and counts its invocations
  in the state.
\<close>

definition fixedCallback ::
  "PermissionResult \<times> error option \<Rightarrow> ('c, 'v, nat) PermissionCallback" where
  "fixedCallback answer ctx toolName input n = (answer, n)"

definition countingCallback ::
  "PermissionResult \<times> error option \<Rightarrow> ('c, 'v, nat) PermissionCallback" where
  "countingCallback answer ctx toolName input n = (answer, Suc n)"

section \<open>Budget tracker (budget.go)\<close>

subsection \<open>The float64 arithmetic the tracker uses\<close>

text \<open>
  Amounts are Go \<^verbatim>\<open>float64\<close> values, IEEE 754 binary64. A finite value is
  \<open>(-1)\<^sup>s \<sqdot> m \<sqdot> 2\<^sup>e\<close> with a sign, a significand \<open>m < 2\<^sup>5\<^sup>3\<close> and an exponent
  \<open>-1074 \<le> e \<le> 971\<close>, written canonically: \<open>2\<^sup>5\<^sup>2 \<le> m\<close> (normal) or \<open>e = -1074\<close>
  (subnormal or zero). There are two zeros, two infinities and NaN (all NaNs are
  identified: the tracker never looks at a payload). The operations the tracker uses
  are \<^verbatim>\<open>+\<close>, \<^verbatim>\<open>-\<close>, \<^verbatim>\<open>*\<close> and the comparisons; each arithmetic operation is the
  exact result rounded to the nearest value, ties to the even significand.
\<close>

datatype float64 = Finite bool nat int | Infinity bool | NaN

fun bitLen :: "nat \<Rightarrow> nat" where
  "bitLen n = (if n = 0 then 0 else Suc (bitLen (n div 2)))"

declare bitLen.simps [simp del]

definition roundDyadic :: "bool \<Rightarrow> nat \<Rightarrow> int \<Rightarrow> float64" where
  \<comment> \<open>the float64 nearest to \<open>(-1)\<^sup>s \<sqdot> m \<sqdot> 2\<^sup>e\<close>, for any \<open>m\<close> and \<open>e\<close>\<close>
  "roundDyadic s m e =
     (if m = 0 then Finite s 0 (- 1074)
      else
        let e' = max (- 1074) (e + int (bitLen m) - 53)
        in if e' \<le> e
           then (if e' > 971 then Infinity s else Finite s (m * 2 ^ nat (e - e')) e')
           else
             let sh = nat (e' - e);
                 q = m div 2 ^ sh;
                 r = m mod 2 ^ sh;
                 half = 2 ^ (sh - 1);
                 q' = (if r > half \<or> (r = half \<and> odd q) then q + 1 else q)
             in if q' = 2 ^ 53
                then (if e' + 1 > 971 then Infinity s else Finite s (2 ^ 52) (e' + 1))
                else if e' > 971 then Infinity s
                else Finite s q' e')"

definition ofInt :: "int \<Rightarrow> float64" where
  \<comment> \<open>an integer constant or conversion\<close>
  "ofInt i = roundDyadic (i < 0) (nat \<bar>i\<bar>) 0"

definition signedMant :: "bool \<Rightarrow> nat \<Rightarrow> int" where
  "signedMant s m = (if s then - int m else int m)"

fun fneg :: "float64 \<Rightarrow> float64" where
  "fneg (Finite s m e) = Finite (\<not> s) m e"
| "fneg (Infinity s) = Infinity (\<not> s)"
| "fneg NaN = NaN"

fun fadd :: "float64 \<Rightarrow> float64 \<Rightarrow> float64" where
  "fadd NaN y = NaN"
| "fadd x NaN = NaN"
| "fadd (Infinity s) (Infinity t) = (if s = t then Infinity s else NaN)"
| "fadd (Infinity s) (Finite t m e) = Infinity s"
| "fadd (Finite s m e) (Infinity t) = Infinity t"
| "fadd (Finite s1 m1 e1) (Finite s2 m2 e2) =
     (let e = min e1 e2;
          t = signedMant s1 m1 * 2 ^ nat (e1 - e) + signedMant s2 m2 * 2 ^ nat (e2 - e)
      in if t = 0 then Finite (s1 \<and> s2) 0 (- 1074)
         else roundDyadic (t < 0) (nat \<bar>t\<bar>) e)"

definition fsub :: "float64 \<Rightarrow> float64 \<Rightarrow> float64" where
  "fsub x y = fadd x (fneg y)"

fun fmul :: "float64 \<Rightarrow> float64 \<Rightarrow> float64" where
  "fmul NaN y = NaN"
| "fmul x NaN = NaN"
| "fmul (Infinity s) (Infinity t) = Infinity (s \<noteq> t)"
| "fmul (Infinity s) (Finite t m e) = (if m = 0 then NaN else Infinity (s \<noteq> t))"
| "fmul (Finite s m e) (Infinity t) = (if m = 0 then NaN else Infinity (s \<noteq> t))"
| "fmul (Finite s1 m1 e1) (Finite s2 m2 e2) = roundDyadic (s1 \<noteq> s2) (m1 * m2) (e1 + e2)"

fun flt :: "float64 \<Rightarrow> float64 \<Rightarrow> bool" where
  "flt NaN y = False"
| "flt x NaN = False"
| "flt (Infinity s) (Infinity t) = (s \<and> \<not> t)"
| "flt (Infinity s) (Finite t m e) = s"
| "flt (Finite s m e) (Infinity t) = (\<not> t)"
| "flt (Finite s1 m1 e1) (Finite s2 m2 e2) =
     (let e = min e1 e2
      in signedMant s1 m1 * 2 ^ nat (e1 - e) < signedMant s2 m2 * 2 ^ nat (e2 - e))"

fun fle :: "float64 \<Rightarrow> float64 \<Rightarrow> bool" where
  "fle NaN y = False"
| "fle x NaN = False"
| "fle (Infinity s) (Infinity t) = (s \<or> \<not> t)"
| "fle (Infinity s) (Finite t m e) = s"
| "fle (Finite s m e) (Infinity t) = (\<not> t)"
| "fle (Finite s1 m1 e1) (Finite s2 m2 e2) =
     (let e = min e1 e2
      in signedMant s1 m1 * 2 ^ nat (e1 - e) \<le> signedMant s2 m2 * 2 ^ nat (e2 - e))"

definition fgt :: "float64 \<Rightarrow> float64 \<Rightarrow> bool" where
  "fgt x y = flt y x"

definition fge :: "float64 \<Rightarrow> float64 \<Rightarrow> bool" where
  "fge x y = fle y x"

subsection \<open>The tracker\<close>

text \<open>
  The two notification hooks are Go functions started with \<^verbatim>\<open>go\<close>: the tracker does
  not wait for them and does not see their effect. A hook is a function from the two
  amounts to the work \<^typ>\<open>'e\<close> it stands for, nil being \<^term>\<open>None\<close>, and AddSpend
  returns the list of the goroutines it started. The mutex is not modelled: each
  operation runs as one step.
\<close>

record 'e BudgetConfig =
  MaxBudgetUSD :: float64
  WarningThreshold :: float64
  OnBudgetWarning :: "(float64 \<Rightarrow> float64 \<Rightarrow> 'e) option"
  OnBudgetExceeded :: "(float64 \<Rightarrow> float64 \<Rightarrow> 'e) option"

record 'e BudgetTracker =
  totalSpent :: float64
  sessionSpent :: "string \<rightharpoonup> float64"
  config :: "'e BudgetConfig"
  warningEmitted :: bool

definition ErrBudgetExceeded :: error where
  "ErrBudgetExceeded = errorString ''budget limit exceeded''"

definition NewBudgetTracker :: "'e BudgetConfig option \<Rightarrow> 'e BudgetTracker" where
  "NewBudgetTracker cfg =
     \<lparr>totalSpent = ofInt 0,
      sessionSpent = Map.empty,
      config = (case cfg of
                  None \<Rightarrow> \<lparr>MaxBudgetUSD = ofInt 0, WarningThreshold = ofInt 0,
                            OnBudgetWarning = None, OnBudgetExceeded = None\<rparr>
                | Some c \<Rightarrow> c),
      warningEmitted = False\<rparr>"

definition TotalSpent :: "'e BudgetTracker \<Rightarrow> float64" where
  "TotalSpent bt = totalSpent bt"

definition SessionSpent :: "'e BudgetTracker \<Rightarrow> string \<Rightarrow> float64" where
  \<comment> \<open>reading a key that the map does not hold gives the zero value\<close>
  "SessionSpent bt sessionID =
     (case sessionSpent bt sessionID of None \<Rightarrow> ofInt 0 | Some v \<Rightarrow> v)"

definition RemainingBudget :: "'e BudgetTracker \<Rightarrow> float64" where
  "RemainingBudget bt =
     (if fle (MaxBudgetUSD (config bt)) (ofInt 0) then ofInt (- 1)
      else
        let remaining = fsub (MaxBudgetUSD (config bt)) (totalSpent bt)
        in if flt remaining (ofInt 0) then ofInt 0 else remaining)"

definition CanSpend :: "'e BudgetTracker \<Rightarrow> float64 \<Rightarrow> bool" where
  "CanSpend bt amount =
     (if fle (MaxBudgetUSD (config bt)) (ofInt 0) then True
      else fle (fadd (totalSpent bt) amount) (MaxBudgetUSD (config bt)))"

definition AddSpend ::
  "'e BudgetTracker \<Rightarrow> string \<Rightarrow> float64 \<Rightarrow> error option \<times> 'e BudgetTracker \<times> 'e list" where
  "AddSpend bt sessionID amount =
     (let bt1 = bt\<lparr>totalSpent := fadd (totalSpent bt) amount\<rparr>;
          bt2 = bt1\<lparr>sessionSpent :=
                  (sessionSpent bt1)(sessionID \<mapsto> fadd (SessionSpent bt1 sessionID) amount)\<rparr>;
          cfg = config bt2;
          (bt3, started) =
            (if fgt (MaxBudgetUSD cfg) (ofInt 0) \<and> fgt (WarningThreshold cfg) (ofInt 0)
                \<and> \<not> warningEmitted bt2
             then
               let warningAmount = fmul (MaxBudgetUSD cfg) (WarningThreshold cfg)
               in if fge (totalSpent bt2) warningAmount
                  then (bt2\<lparr>warningEmitted := True\<rparr>,
                        case OnBudgetWarning cfg of
                          None \<Rightarrow> []
                        | Some f \<Rightarrow> [f (totalSpent bt2) (MaxBudgetUSD cfg)])
                  else (bt2, [])
             else (bt2, []))
      in if fgt (MaxBudgetUSD cfg) (ofInt 0) \<and> fgt (totalSpent bt3) (MaxBudgetUSD cfg)
         then (Some ErrBudgetExceeded, bt3,
               started @ (case OnBudgetExceeded cfg of
                            None \<Rightarrow> []
                          | Some f \<Rightarrow> [f (totalSpent bt3) (MaxBudgetUSD cfg)]))
         else (None, bt3, started))"

definition Reset :: "'e BudgetTracker \<Rightarrow> 'e BudgetTracker" where
  "Reset bt = bt\<lparr>totalSpent := ofInt 0, sessionSpent := Map.empty, warningEmitted := False\<rparr>"

definition ResetSession :: "'e BudgetTracker \<Rightarrow> string \<Rightarrow> 'e BudgetTracker" where
  "ResetSession bt sessionID =
     (case sessionSpent bt sessionID of
        Some spent \<Rightarrow>
          bt\<lparr>totalSpent := fsub (totalSpent bt) spent,
             sessionSpent := (sessionSpent bt)(sessionID := None)\<rparr>
      | None \<Rightarrow> bt)"

definition UpdateConfig :: "'e BudgetTracker \<Rightarrow> 'e BudgetConfig \<Rightarrow> 'e BudgetTracker" where
  "UpdateConfig bt cfg = bt\<lparr>config := cfg, warningEmitted := False\<rparr>"

section \<open>Plugin manager (plugin.go)\<close>

subsection \<open>Plugins, entries and the manager\<close>

text \<open>
  A plugin is a Go interface value: a name, a version and five hooks. A hook returns an
  error or nil and may change state that belongs to the plugins (counters, logs, files);
  that state is the explicit component \<^typ>\<open>'w\<close>, threaded through the hook calls in the
  order in which the manager makes them. The context, the message and the result that
  the manager hands to the hooks are passed on untouched; their types \<^typ>\<open>'c\<close>,
  \<^typ>\<open>'m\<close> and \<^typ>\<open>'r\<close> are left open. \<^verbatim>\<open>Name()\<close> and \<^verbatim>\<open>Version()\<close> are taken to be
  constant for a plugin. A hook does not call the manager back (the manager holds its
  mutex while it calls a hook, and the Go program would block) and it does not write to a
  PluginConfig. The mutex itself is not modelled; each operation of the manager runs as
  one step.
\<close>

record ('c, 'v, 'm, 'r, 'w) Plugin =
  Name :: string
  Version :: string
  Initialize :: "'c \<Rightarrow> 'w \<Rightarrow> error option \<times> 'w"
  OnToolCall :: "'c \<Rightarrow> string \<Rightarrow> 'v ToolInput \<Rightarrow> 'w \<Rightarrow> error option \<times> 'w"
  OnMessage :: "'c \<Rightarrow> 'm \<Rightarrow> 'w \<Rightarrow> error option \<times> 'w"
  OnComplete :: "'c \<Rightarrow> 'r \<Rightarrow> 'w \<Rightarrow> error option \<times> 'w"
  Shutdown :: "'c \<Rightarrow> 'w \<Rightarrow> error option \<times> 'w"

record 'v PluginConfig =
  Enabled :: bool
  Priority :: int
  Config :: "string \<rightharpoonup> 'v"

text \<open>
  An entry holds a pointer to a PluginConfig, and the code reads and writes the
  configuration through that pointer: Register stores the pointer that the caller hands
  in, so two entries registered with the same PluginConfig share it, and SetEnabled
  writes the flag into the shared object. The PluginConfig objects therefore live in a
  store, and an entry holds a reference into it, nil being \<^term>\<open>None\<close>. A reference is
  either to an object that the caller allocated (\<open>Given\<close>) or to one that the manager
  allocated itself for a registration without configuration (\<open>Default\<close>); the caller
  never gets hold of the latter. Every \<open>Given\<close> reference denotes an object, as every Go
  pointer does. Priorities are Go \<^verbatim>\<open>int\<close>s that the code only compares; they are
  modelled as \<^typ>\<open>int\<close>.
\<close>

datatype configRef = Given nat | Default nat

record ('c, 'v, 'm, 'r, 'w) pluginEntry =
  plugin :: "('c, 'v, 'm, 'r, 'w) Plugin"
  config :: "configRef option"
  priority :: int

record ('c, 'v, 'm, 'r, 'w) PluginManager =
  plugins :: "('c, 'v, 'm, 'r, 'w) pluginEntry list"
  initialized :: bool

text \<open>
  What lies outside the manager: the state of the plugins, the store of the PluginConfig
  objects with the number of objects that the manager has allocated, and a history of
  the hook calls. The history is not part of the Go program and nothing reads it; it is
  kept to state which hooks the manager calls: every hook call appends the plugin's
  name, the hook and whether the entry was disabled when the call was made.
\<close>

datatype hookKind = InitializeHook | OnToolCallHook | OnMessageHook | OnCompleteHook
  | ShutdownHook

record hookCall =
  callee :: string
  hook :: hookKind
  whileDisabled :: bool

record ('v, 'w) ambient =
  world :: 'w
  calls :: "hookCall list"
  configs :: "configRef \<Rightarrow> 'v PluginConfig"
  allocated :: nat

definition NewPluginManager :: "('c, 'v, 'm, 'r, 'w) PluginManager" where
  "NewPluginManager = \<lparr>plugins = [], initialized = False\<rparr>"

definition newConfig ::
  "'v PluginConfig \<Rightarrow> ('v, 'w) ambient \<Rightarrow> configRef \<times> ('v, 'w) ambient" where
  \<comment> \<open>the expression \<^verbatim>\<open>&PluginConfig{...}\<close> inside the manager: a new object\<close>
  "newConfig cfg a =
     (Default (allocated a),
      a\<lparr>configs := (configs a)(Default (allocated a) := cfg),
        allocated := Suc (allocated a)\<rparr>)"

subsection \<open>Registry operations\<close>

fun insertEntry ::
  "('c, 'v, 'm, 'r, 'w) pluginEntry \<Rightarrow> ('c, 'v, 'm, 'r, 'w) pluginEntry list
   \<Rightarrow> ('c, 'v, 'm, 'r, 'w) pluginEntry list" where
  \<comment> \<open>the insertion loop of Register: before the first entry of greater priority, else
      at the end\<close>
  "insertEntry entry [] = [entry]"
| "insertEntry entry (existing # rest) =
     (if priority entry < priority existing then entry # existing # rest
      else existing # insertEntry entry rest)"

definition Register ::
  "('c, 'v, 'm, 'r, 'w) PluginManager \<Rightarrow> ('c, 'v, 'm, 'r, 'w) Plugin option \<Rightarrow> nat option
   \<Rightarrow> ('v, 'w) ambient
   \<Rightarrow> error option \<times> ('c, 'v, 'm, 'r, 'w) PluginManager \<times> ('v, 'w) ambient" where
  \<comment> \<open>\<open>config'\<close> is the caller's pointer: \<^term>\<open>None\<close> for nil, \<open>Some n\<close> for the
      caller's object \<open>Given n\<close>\<close>
  "Register pm plugin' config' a =
     (case plugin' of
        None \<Rightarrow> (Some (errorString ''plugin cannot be nil''), pm, a)
      | Some p \<Rightarrow>
          if Name p = '''' then (Some (errorString ''plugin name cannot be empty''), pm, a)
          else if list_ex (\<lambda>entry. Name (plugin entry) = Name p) (plugins pm)
          then (Some (errorString
                  (''plugin with name '' @ quoted (Name p) @ '' already registered'')), pm, a)
          else
            let (cfg, a') =
                  (case config' of
                     None \<Rightarrow>
                       newConfig \<lparr>Enabled = True, Priority = 100, Config = Map.empty\<rparr> a
                   | Some n \<Rightarrow> (Given n, a));
                prio = (if Priority (configs a' cfg) = 0 then 100
                        else Priority (configs a' cfg));
                entry = \<lparr>plugin = p, config = Some cfg, priority = prio\<rparr>
            in (None, pm\<lparr>plugins := insertEntry entry (plugins pm)\<rparr>, a'))"

fun removeNamed ::
  "string \<Rightarrow> ('c, 'v, 'm, 'r, 'w) pluginEntry list
   \<Rightarrow> ('c, 'v, 'm, 'r, 'w) pluginEntry list option" where
  \<comment> \<open>the loop of Unregister: the list without the first entry of that name\<close>
  "removeNamed name [] = None"
| "removeNamed name (entry # rest) =
     (if Name (plugin entry) = name then Some rest
      else map_option (\<lambda>rest'. entry # rest') (removeNamed name rest))"

definition Unregister ::
  "('c, 'v, 'm, 'r, 'w) PluginManager \<Rightarrow> string
   \<Rightarrow> error option \<times> ('c, 'v, 'm, 'r, 'w) PluginManager" where
  "Unregister pm name =
     (case removeNamed name (plugins pm) of
        Some rest \<Rightarrow> (None, pm\<lparr>plugins := rest\<rparr>)
      | None \<Rightarrow> (Some (errorString (''plugin '' @ quoted name @ '' not found'')), pm))"

fun enableNamed ::
  "string \<Rightarrow> bool \<Rightarrow> ('c, 'v, 'm, 'r, 'w) pluginEntry list \<Rightarrow> ('v, 'w) ambient
   \<Rightarrow> (('c, 'v, 'm, 'r, 'w) pluginEntry list \<times> ('v, 'w) ambient) option" where
  \<comment> \<open>the loop of SetEnabled, at the first entry of that name: an entry without
      configuration gets a new one, otherwise the flag is written into the object that
      the entry points to\<close>
  "enableNamed name enabled [] a = None"
| "enableNamed name enabled (entry # rest) a =
     (if Name (plugin entry) = name
      then (case config entry of
              None \<Rightarrow>
                let (cfg, a') =
                      newConfig \<lparr>Enabled = enabled, Priority = 100, Config = Map.empty\<rparr> a
                in Some (entry\<lparr>config := Some cfg\<rparr> # rest, a')
            | Some cfg \<Rightarrow>
                Some (entry # rest,
                      a\<lparr>configs := (configs a)(cfg := (configs a cfg)\<lparr>Enabled := enabled\<rparr>)\<rparr>))
      else map_option (\<lambda>(rest', a'). (entry # rest', a')) (enableNamed name enabled rest a))"

definition SetEnabled ::
  "('c, 'v, 'm, 'r, 'w) PluginManager \<Rightarrow> string \<Rightarrow> bool \<Rightarrow> ('v, 'w) ambient
   \<Rightarrow> error option \<times> ('c, 'v, 'm, 'r, 'w) PluginManager \<times> ('v, 'w) ambient" where
  "SetEnabled pm name enabled a =
     (case enableNamed name enabled (plugins pm) a of
        Some (entries, a') \<Rightarrow> (None, pm\<lparr>plugins := entries\<rparr>, a')
      | None \<Rightarrow> (Some (errorString (''plugin '' @ quoted name @ '' not found'')), pm, a))"

definition List :: "('c, 'v, 'm, 'r, 'w) PluginManager \<Rightarrow> string list" where
  "List pm = map (\<lambda>entry. Name (plugin entry)) (plugins pm)"

definition Get ::
  "('c, 'v, 'm, 'r, 'w) PluginManager \<Rightarrow> string \<Rightarrow> ('c, 'v, 'm, 'r, 'w) Plugin option" where
  "Get pm name = map_option plugin (find (\<lambda>entry. Name (plugin entry) = name) (plugins pm))"

definition Count :: "('c, 'v, 'm, 'r, 'w) PluginManager \<Rightarrow> nat" where
  "Count pm = length (plugins pm)"

subsection \<open>Hook dispatch\<close>

definition isDisabled ::
  "(configRef \<Rightarrow> 'v PluginConfig) \<Rightarrow> ('c, 'v, 'm, 'r, 'w) pluginEntry \<Rightarrow> bool" where
  \<comment> \<open>the test \<^verbatim>\<open>entry.config != nil && !entry.config.Enabled\<close>, read in the store\<close>
  "isDisabled store entry =
     (case config entry of None \<Rightarrow> False | Some cfg \<Rightarrow> \<not> Enabled (store cfg))"

definition callOf ::
  "(configRef \<Rightarrow> 'v PluginConfig) \<Rightarrow> hookKind \<Rightarrow> ('c, 'v, 'm, 'r, 'w) pluginEntry
   \<Rightarrow> hookCall" where
  "callOf store k entry =
     \<lparr>callee = Name (plugin entry), hook = k, whileDisabled = isDisabled store entry\<rparr>"

definition invoke ::
  "hookKind \<Rightarrow> ('c, 'v, 'm, 'r, 'w) pluginEntry \<Rightarrow> ('w \<Rightarrow> error option \<times> 'w)
   \<Rightarrow> ('v, 'w) ambient \<Rightarrow> error option \<times> ('v, 'w) ambient" where
  \<comment> \<open>one hook call: the hook runs on the plugins' state and the call is recorded\<close>
  "invoke k entry h a =
     (let (err, w') = h (world a)
      in (err, a\<lparr>world := w', calls := calls a @ [callOf (configs a) k entry]\<rparr>))"

definition errorfNamed :: "string \<Rightarrow> string \<Rightarrow> string \<Rightarrow> error \<Rightarrow> error" where
  \<comment> \<open>\<^verbatim>\<open>fmt.Errorf(before + "'%s'" + after + "%w", name, err)\<close>\<close>
  "errorfNamed before name after err = wrapError (before @ quoted name @ after @ Error err) err"

text \<open>
  Initialize, OnToolCall, OnMessage and OnComplete contain the same loop over
  \<^verbatim>\<open>pm.plugins\<close>: skip a disabled entry, call the hook, and return the wrapped error
  of the first hook that fails. The loop is written once, with the hook to call, its
  kind and the wrapping as parameters. The flag of an entry is read in the store when
  the loop reaches the entry.
\<close>

fun forEachEnabled ::
  "(('c, 'v, 'm, 'r, 'w) pluginEntry \<Rightarrow> 'w \<Rightarrow> error option \<times> 'w) \<Rightarrow> hookKind
   \<Rightarrow> (string \<Rightarrow> error \<Rightarrow> error) \<Rightarrow> ('c, 'v, 'm, 'r, 'w) pluginEntry list
   \<Rightarrow> ('v, 'w) ambient \<Rightarrow> error option \<times> ('v, 'w) ambient" where
  "forEachEnabled h k wrap [] a = (None, a)"
| "forEachEnabled h k wrap (entry # rest) a =
     (if isDisabled (configs a) entry then forEachEnabled h k wrap rest a
      else
        case invoke k entry (h entry) a of
          (Some err, a') \<Rightarrow> (Some (wrap (Name (plugin entry)) err), a')
        | (None, a') \<Rightarrow> forEachEnabled h k wrap rest a')"

definition Initialize ::
  "('c, 'v, 'm, 'r, 'w) PluginManager \<Rightarrow> 'c \<Rightarrow> ('v, 'w) ambient
   \<Rightarrow> error option \<times> ('c, 'v, 'm, 'r, 'w) PluginManager \<times> ('v, 'w) ambient" where
  "Initialize pm ctx a =
     (if initialized pm then (None, pm, a)
      else
        case forEachEnabled (\<lambda>entry. Plugin.Initialize (plugin entry) ctx) InitializeHook
               (\<lambda>name. errorfNamed ''failed to initialize plugin '' name '': '')
               (plugins pm) a of
          (Some err, a') \<Rightarrow> (Some err, pm, a')
        | (None, a') \<Rightarrow> (None, pm\<lparr>initialized := True\<rparr>, a'))"

definition OnToolCall ::
  "('c, 'v, 'm, 'r, 'w) PluginManager \<Rightarrow> 'c \<Rightarrow> string \<Rightarrow> 'v ToolInput \<Rightarrow> ('v, 'w) ambient
   \<Rightarrow> error option \<times> ('v, 'w) ambient" where
  "OnToolCall pm ctx toolName input a =
     forEachEnabled (\<lambda>entry. Plugin.OnToolCall (plugin entry) ctx toolName input)
       OnToolCallHook (\<lambda>name. errorfNamed ''plugin '' name '' rejected tool call: '')
       (plugins pm) a"

definition OnMessage ::
  "('c, 'v, 'm, 'r, 'w) PluginManager \<Rightarrow> 'c \<Rightarrow> 'm \<Rightarrow> ('v, 'w) ambient
   \<Rightarrow> error option \<times> ('v, 'w) ambient" where
  "OnMessage pm ctx msg a =
     forEachEnabled (\<lambda>entry. Plugin.OnMessage (plugin entry) ctx msg)
       OnMessageHook (\<lambda>name. errorfNamed ''plugin '' name '' error on message: '')
       (plugins pm) a"

definition OnComplete ::
  "('c, 'v, 'm, 'r, 'w) PluginManager \<Rightarrow> 'c \<Rightarrow> 'r \<Rightarrow> ('v, 'w) ambient
   \<Rightarrow> error option \<times> ('v, 'w) ambient" where
  "OnComplete pm ctx result a =
     forEachEnabled (\<lambda>entry. Plugin.OnComplete (plugin entry) ctx result)
       OnCompleteHook (\<lambda>name. errorfNamed ''plugin '' name '' error on complete: '')
       (plugins pm) a"

fun shutdownLoop ::
  "'c \<Rightarrow> ('c, 'v, 'm, 'r, 'w) pluginEntry list \<Rightarrow> error option \<Rightarrow> ('v, 'w) ambient
   \<Rightarrow> error option \<times> ('v, 'w) ambient" where
  \<comment> \<open>the loop of Shutdown over the entries in the order given, \<open>lastErr\<close> being the
      variable of that name\<close>
  "shutdownLoop ctx [] lastErr a = (lastErr, a)"
| "shutdownLoop ctx (entry # rest) lastErr a =
     (case invoke ShutdownHook entry (Plugin.Shutdown (plugin entry) ctx) a of
        (Some err, a') \<Rightarrow>
          shutdownLoop ctx rest
            (Some (errorfNamed ''failed to shutdown plugin '' (Name (plugin entry)) '': '' err))
            a'
      | (None, a') \<Rightarrow> shutdownLoop ctx rest lastErr a')"

definition Shutdown ::
  "('c, 'v, 'm, 'r, 'w) PluginManager \<Rightarrow> 'c \<Rightarrow> ('v, 'w) ambient
   \<Rightarrow> error option \<times> ('c, 'v, 'm, 'r, 'w) PluginManager \<times> ('v, 'w) ambient" where
  \<comment> \<open>the index runs from \<^verbatim>\<open>len(pm.plugins) - 1\<close> down to 0\<close>
  "Shutdown pm ctx a =
     (let (lastErr, a') = shutdownLoop ctx (rev (plugins pm)) None a
      in (lastErr, pm\<lparr>initialized := False\<rparr>, a'))"

subsection \<open>Sequences of operations\<close>

text \<open>
  \<open>registerAll pm regs a\<close> registers the plugins of \<open>regs\<close> one after the other, each
  with its configuration pointer (nil being \<^term>\<open>None\<close>); it is \<^term>\<open>None\<close> as soon as
  one Register call returns an error.
\<close>

fun registerAll ::
  "('c, 'v, 'm, 'r, 'w) PluginManager
   \<Rightarrow> (('c, 'v, 'm, 'r, 'w) Plugin \<times> nat option) list \<Rightarrow> ('v, 'w) ambient
   \<Rightarrow> (('c, 'v, 'm, 'r, 'w) PluginManager \<times> ('v, 'w) ambient) option" where
  "registerAll pm [] a = Some (pm, a)"
| "registerAll pm ((p, c) # regs) a =
     (case Register pm (Some p) c a of
        (None, pm', a') \<Rightarrow> registerAll pm' regs a'
      | (Some err, pm', a') \<Rightarrow> None)"

definition configOf :: "(configRef \<Rightarrow> 'v PluginConfig) \<Rightarrow> nat option \<Rightarrow> 'v PluginConfig" where
  \<comment> \<open>the configuration of a registration: the caller's object, or the default for nil\<close>
  "configOf store c =
     (case c of
        None \<Rightarrow> \<lparr>Enabled = True, Priority = 100, Config = Map.empty\<rparr>
      | Some n \<Rightarrow> store (Given n))"

definition effectivePriority :: "(configRef \<Rightarrow> 'v PluginConfig) \<Rightarrow> nat option \<Rightarrow> int" where
  \<comment> \<open>the specification's effective priority of a registration: 100 for a missing
      configuration and for priority 0\<close>
  "effectivePriority store c =
     (if Priority (configOf store c) = 0 then 100 else Priority (configOf store c))"

fun entriesOf ::
  "(configRef \<Rightarrow> 'v PluginConfig) \<Rightarrow> nat
   \<Rightarrow> (('c, 'v, 'm, 'r, 'w) Plugin \<times> nat option) list
   \<Rightarrow> ('c, 'v, 'm, 'r, 'w) pluginEntry list" where
  \<comment> \<open>the entries that stand for a list of registrations, in registration order, when
      the manager has allocated \<open>n\<close> objects before\<close>
  "entriesOf store n [] = []"
| "entriesOf store n ((p, None) # regs) =
     \<lparr>plugin = p, config = Some (Default n), priority = 100\<rparr> # entriesOf store (Suc n) regs"
| "entriesOf store n ((p, Some m) # regs) =
     \<lparr>plugin = p, config = Some (Given m), priority = effectivePriority store (Some m)\<rparr>
       # entriesOf store n regs"

text \<open>
  A plugin in the manner of the mock of the repository's tests: every hook counts its
  invocation in the state and returns the given error.
\<close>

definition mockPlugin :: "string \<Rightarrow> error option \<Rightarrow> ('c, 'v, 'm, 'r, nat) Plugin" where
  "mockPlugin name err =
     \<lparr>Name = name, Version = ''1.0.0'',
      Initialize = (\<lambda>ctx n. (err, Suc n)),
      OnToolCall = (\<lambda>ctx toolName input n. (err, Suc n)),
      OnMessage = (\<lambda>ctx msg n. (err, Suc n)),
      OnComplete = (\<lambda>ctx result n. (err, Suc n)),
      Shutdown = (\<lambda>ctx n. (err, Suc n))\<rparr>"

subsection \<open>Notions used to state the properties\<close>

text \<open>
  \<open>allSucceed store h entries w = Some w'\<close>: called one after the other from the state
  \<open>w\<close>, the hook \<open>h\<close> of every entry of the list that is enabled in the store returns nil,
  and the state after the last one is \<open>w'\<close>.
\<close>

fun allSucceed ::
  "(configRef \<Rightarrow> 'v PluginConfig)
   \<Rightarrow> (('c, 'v, 'm, 'r, 'w) pluginEntry \<Rightarrow> 'w \<Rightarrow> error option \<times> 'w)
   \<Rightarrow> ('c, 'v, 'm, 'r, 'w) pluginEntry list \<Rightarrow> 'w \<Rightarrow> 'w option" where
  "allSucceed store h [] w = Some w"
| "allSucceed store h (entry # rest) w =
     (if isDisabled store entry then allSucceed store h rest w
      else case h entry w of
             (None, w') \<Rightarrow> allSucceed store h rest w'
           | (Some err, w') \<Rightarrow> None)"

definition enabledEntries ::
  "(configRef \<Rightarrow> 'v PluginConfig) \<Rightarrow> ('c, 'v, 'm, 'r, 'w) pluginEntry list
   \<Rightarrow> ('c, 'v, 'm, 'r, 'w) pluginEntry list" where
  "enabledEntries store entries = filter (\<lambda>entry. \<not> isDisabled store entry) entries"

text \<open>
  A client drives a manager through its methods, and between two calls it may write to a
  PluginConfig that it holds. \<open>performAll ops (pm, a)\<close> applies the steps of \<open>ops\<close> in
  order to the manager \<open>pm\<close> and the surroundings \<open>a\<close>; the values and errors that the
  calls return are dropped.
\<close>

datatype ('c, 'v, 'm, 'r, 'w) operation =
    RegisterOp "('c, 'v, 'm, 'r, 'w) Plugin option" "nat option"
  | UnregisterOp string
  | SetEnabledOp string bool
  | InitializeOp 'c
  | OnToolCallOp 'c string "'v ToolInput"
  | OnMessageOp 'c 'm
  | OnCompleteOp 'c 'r
  | ShutdownOp 'c
  | ListOp
  | GetOp string
  | CountOp
  | WriteConfigOp nat "'v PluginConfig"

fun perform ::
  "('c, 'v, 'm, 'r, 'w) operation \<Rightarrow> ('c, 'v, 'm, 'r, 'w) PluginManager \<times> ('v, 'w) ambient
   \<Rightarrow> ('c, 'v, 'm, 'r, 'w) PluginManager \<times> ('v, 'w) ambient" where
  "perform (RegisterOp p c) (pm, a) = snd (Register pm p c a)"
| "perform (UnregisterOp name) (pm, a) = (snd (Unregister pm name), a)"
| "perform (SetEnabledOp name enabled) (pm, a) = snd (SetEnabled pm name enabled a)"
| "perform (InitializeOp ctx) (pm, a) = snd (Initialize pm ctx a)"
| "perform (OnToolCallOp ctx toolName input) (pm, a) =
     (pm, snd (OnToolCall pm ctx toolName input a))"
| "perform (OnMessageOp ctx msg) (pm, a) = (pm, snd (OnMessage pm ctx msg a))"
| "perform (OnCompleteOp ctx result) (pm, a) = (pm, snd (OnComplete pm ctx result a))"
| "perform (ShutdownOp ctx) (pm, a) = snd (Shutdown pm ctx a)"
| "perform ListOp (pm, a) = (pm, a)"
| "perform (GetOp name) (pm, a) = (pm, a)"
| "perform CountOp (pm, a) = (pm, a)"
| "perform (WriteConfigOp n cfg) (pm, a) = (pm, a\<lparr>configs := (configs a)(Given n := cfg)\<rparr>)"

definition performAll ::
  "('c, 'v, 'm, 'r, 'w) operation list \<Rightarrow> ('c, 'v, 'm, 'r, 'w) PluginManager \<times> ('v, 'w) ambient
   \<Rightarrow> ('c, 'v, 'm, 'r, 'w) PluginManager \<times> ('v, 'w) ambient" where
  "performAll ops s = foldl (\<lambda>s' op. perform op s') s ops"

definition wellOrdered :: "('c, 'v, 'm, 'r, 'w) PluginManager \<Rightarrow> bool" where
  \<comment> \<open>ascending priorities, no name twice\<close>
  "wellOrdered pm =
     (sorted (map priority (plugins pm)) \<and> distinct (map (\<lambda>e. Name (plugin e)) (plugins pm)))"

definition ownRefsFresh ::
  "('c, 'v, 'm, 'r, 'w) PluginManager \<Rightarrow> ('v, 'w) ambient \<Rightarrow> bool" where
  \<comment> \<open>the entries point only to objects that exist: a \<open>Default\<close> reference of an entry
      is below the allocation count, so the next allocation is a new object\<close>
  "ownRefsFresh pm a =
     list_all (\<lambda>entry. case config entry of
                          Some (Default n) \<Rightarrow> n < allocated a
                        | _ \<Rightarrow> True)
       (plugins pm)"

text \<open>
  \<open>shutdownResults ctx entries w\<close> calls the Shutdown hook of every entry of the list in
  order, from the state \<open>w\<close>; it gives each entry with what its hook returned, and the
  final state. \<open>lastFailure\<close> is the last error among such results, wrapped with the name
  of the plugin that returned it, or nil when no hook failed.
\<close>

fun shutdownResults ::
  "'c \<Rightarrow> ('c, 'v, 'm, 'r, 'w) pluginEntry list \<Rightarrow> 'w
   \<Rightarrow> (('c, 'v, 'm, 'r, 'w) pluginEntry \<times> error option) list \<times> 'w" where
  "shutdownResults ctx [] w = ([], w)"
| "shutdownResults ctx (entry # rest) w =
     (let (res, w') = Plugin.Shutdown (plugin entry) ctx w;
          (results, w'') = shutdownResults ctx rest w'
      in ((entry, res) # results, w''))"

definition failuresOf ::
  "(('c, 'v, 'm, 'r, 'w) pluginEntry \<times> error option) list \<Rightarrow> error list" where
  "failuresOf results =
     concat (map (\<lambda>(entry, res).
                    case res of
                      None \<Rightarrow> []
                    | Some err \<Rightarrow>
                        [errorfNamed ''failed to shutdown plugin '' (Name (plugin entry))
                           '': '' err])
              results)"

definition lastFailure ::
  "(('c, 'v, 'm, 'r, 'w) pluginEntry \<times> error option) list \<Rightarrow> error option" where
  "lastFailure results =
     (if failuresOf results = [] then None else Some (last (failuresOf results)))"

text \<open>
  For the examples: a store in which the caller's object \<open>Given n\<close> has priority \<open>n\<close>
  and is enabled when \<open>n\<close> is even, and the entry that Register makes of a mock plugin
  and the caller's object \<open>Given n\<close> of that store.
\<close>

definition mockConfigs :: "configRef \<Rightarrow> 'v PluginConfig" where
  "mockConfigs cfg =
     (case cfg of
        Given n \<Rightarrow> \<lparr>Enabled = even n, Priority = int n, Config = Map.empty\<rparr>
      | Default n \<Rightarrow> \<lparr>Enabled = True, Priority = 100, Config = Map.empty\<rparr>)"

definition mockAmbient :: "('v, nat) ambient" where
  "mockAmbient = \<lparr>world = 0, calls = [], configs = mockConfigs, allocated = 0\<rparr>"

definition mockEntry :: "string \<Rightarrow> error option \<Rightarrow> nat \<Rightarrow> ('c, 'v, 'm, 'r, nat) pluginEntry" where
  "mockEntry name err n =
     \<lparr>plugin = mockPlugin name err, config = Some (Given n),
      priority = (if n = 0 then 100 else int n)\<rparr>"

section \<open>Properties of the permission rules\<close>

declare TrimLeftSpace.simps [simp del] TrimRightSpace.simps [simp del]

lemma HasPrefix_iff_prefix: "HasPrefix s p \<longleftrightarrow> prefix p s"
proof
  assume "HasPrefix s p"
  then have "s = p @ drop (length p) s"
    by (metis HasPrefix_def append_take_drop_id)
  then show "prefix p s" by (metis prefixI)
next
  assume "prefix p s"
  then show "HasPrefix s p" by (auto simp: HasPrefix_def prefix_def)
qed

lemma HasSuffix_iff_suffix: "HasSuffix s p \<longleftrightarrow> suffix p s"
proof
  assume "HasSuffix s p"
  then have "s = take (length s - length p) s @ p"
    by (metis HasSuffix_def append_take_drop_id)
  then show "suffix p s" by (metis suffixI)
next
  assume "suffix p s"
  then show "HasSuffix s p" by (auto simp: HasSuffix_def suffix_def)
qed

lemma Contains_single: "Contains s [c] \<longleftrightarrow> c \<in> set s"
  by (induction s) (auto simp: HasPrefix_def)

lemma TrimSuffix_two: "suffix [a, b] p \<Longrightarrow> TrimSuffix p [a, b] = butlast (butlast p)"
  by (auto simp: TrimSuffix_def HasSuffix_iff_suffix suffix_def butlast_append)

lemma TrimSuffix_one: "suffix [a] p \<Longrightarrow> TrimSuffix p [a] = butlast p"
  by (auto simp: TrimSuffix_def HasSuffix_iff_suffix suffix_def)

lemma TrimPrefix_one: "prefix [a] p \<Longrightarrow> TrimPrefix p [a] = tl p"
  by (auto simp: TrimPrefix_def HasPrefix_iff_prefix prefix_def)

subsection \<open>The regular expression\<close>

text \<open>
  FindStringSubmatch accepts exactly the strings of the regular expression and returns
  its groups: a tool without \<^verbatim>\<open>(\<close>, an opening parenthesis, a command without
  \<^verbatim>\<open>:\<close> and \<^verbatim>\<open>)\<close>, optionally a colon and a pattern without \<^verbatim>\<open>:\<close> and \<^verbatim>\<open>)\<close>, and
  the closing parenthesis at the end, the tool, the command and a pattern that is present
  being non-empty.
\<close>

lemma run_then_stop:
  "\<forall>c \<in> set run. P c \<Longrightarrow> \<not> P x \<Longrightarrow>
   takeWhile P (run @ x # rest) = run \<and> dropWhile P (run @ x # rest) = x # rest"
  by (simp add: takeWhile_append2 dropWhile_append2)

lemma FindStringSubmatch_command:
  assumes "tool \<noteq> []" "\<forall>c \<in> set tool. notParen c"
    and "command \<noteq> []" "\<forall>c \<in> set command. notColonParen c"
  shows "FindStringSubmatch (tool @ ''('' @ command @ '')'') =
           [tool @ ''('' @ command @ '')'', tool, command, '''']"
proof -
  have t: "takeWhile notParen (tool @ CHR ''('' # command @ '')'') = tool
         \<and> dropWhile notParen (tool @ CHR ''('' # command @ '')'') = CHR ''('' # command @ '')''"
    using assms(2) by (intro run_then_stop) (simp_all add: notParen_def)
  have c: "takeWhile notColonParen (command @ CHR '')'' # []) = command
         \<and> dropWhile notColonParen (command @ CHR '')'' # []) = '')''"
    using assms(4) by (intro run_then_stop) (simp_all add: notColonParen_def)
  show ?thesis
    using assms(1,3) t c by (simp add: FindStringSubmatch_def Let_def)
qed

lemma FindStringSubmatch_command_pattern:
  assumes "tool \<noteq> []" "\<forall>c \<in> set tool. notParen c"
    and "command \<noteq> []" "\<forall>c \<in> set command. notColonParen c"
    and "pattern \<noteq> []" "\<forall>c \<in> set pattern. notColonParen c"
  shows "FindStringSubmatch (tool @ ''('' @ command @ '':'' @ pattern @ '')'') =
           [tool @ ''('' @ command @ '':'' @ pattern @ '')'', tool, command, pattern]"
proof -
  have t: "takeWhile notParen (tool @ CHR ''('' # command @ CHR '':'' # pattern @ '')'') = tool
         \<and> dropWhile notParen (tool @ CHR ''('' # command @ CHR '':'' # pattern @ '')'')
             = CHR ''('' # command @ CHR '':'' # pattern @ '')''"
    using assms(2) by (intro run_then_stop) (simp_all add: notParen_def)
  have c: "takeWhile notColonParen (command @ CHR '':'' # pattern @ '')'') = command
         \<and> dropWhile notColonParen (command @ CHR '':'' # pattern @ '')'')
             = CHR '':'' # pattern @ '')''"
    using assms(4) by (intro run_then_stop) (simp_all add: notColonParen_def)
  have p: "takeWhile notColonParen (pattern @ CHR '')'' # []) = pattern
         \<and> dropWhile notColonParen (pattern @ CHR '')'' # []) = '')''"
    using assms(6) by (intro run_then_stop) (simp_all add: notColonParen_def)
  show ?thesis
    using assms(1,3,5) t c p by (simp add: FindStringSubmatch_def Let_def)
qed

lemma stop_char:
  "dropWhile P s = x # rest \<Longrightarrow> \<not> P x \<and> s = takeWhile P s @ x # rest"
  by (metis hd_dropWhile list.distinct(1) list.sel(1) takeWhile_dropWhile_id)

lemma FindStringSubmatch_matches:
  assumes "FindStringSubmatch s \<noteq> []"
  shows "\<exists>tool command pattern.
           FindStringSubmatch s = [s, tool, command, pattern]
           \<and> tool \<noteq> [] \<and> (\<forall>c \<in> set tool. notParen c)
           \<and> command \<noteq> [] \<and> (\<forall>c \<in> set command. notColonParen c)
           \<and> (\<forall>c \<in> set pattern. notColonParen c)
           \<and> s = tool @ ''('' @ command @ (if pattern = [] then [] else '':'' @ pattern) @ '')''"
proof -
  let ?tool = "takeWhile notParen s"
  from assms have tool: "?tool \<noteq> []" and r1: "dropWhile notParen s \<noteq> []"
    by (auto simp: FindStringSubmatch_def Let_def split: if_splits)
  from r1 obtain x r2 where d1: "dropWhile notParen s = x # r2"
    by (cases "dropWhile notParen s") auto
  from stop_char [OF d1] have x: "x = CHR ''(''" and s: "s = ?tool @ CHR ''('' # r2"
    by (auto simp: notParen_def)
  let ?command = "takeWhile notColonParen r2"
  from assms tool d1 have command: "?command \<noteq> []"
    by (auto simp: FindStringSubmatch_def Let_def split: if_splits)
  have tset: "\<forall>c \<in> set ?tool. notParen c" and cset: "\<forall>c \<in> set ?command. notColonParen c"
    by (auto dest: set_takeWhileD)
  show ?thesis
  proof (cases "dropWhile notColonParen r2 = '')''")
    case True
    then have r2: "r2 = ?command @ '')''"
      by (metis takeWhile_dropWhile_id)
    from True tool d1 command
    have "FindStringSubmatch s = [s, ?tool, ?command, '''']"
      by (simp add: FindStringSubmatch_def Let_def)
    with tool command tset cset s r2 show ?thesis
      by (intro exI [of _ ?tool] exI [of _ ?command] exI [of _ "''''"]) auto
  next
    case False
    with assms tool d1 command obtain r4 where d3: "dropWhile notColonParen r2 = CHR '':'' # r4"
      by (cases "dropWhile notColonParen r2")
        (auto simp: FindStringSubmatch_def Let_def split: if_splits)
    let ?pattern = "takeWhile notColonParen r4"
    from assms tool d1 command False d3
    have pattern: "?pattern \<noteq> []" and d5: "dropWhile notColonParen r4 = '')''"
      by (auto simp: FindStringSubmatch_def Let_def split: if_splits)
    have r2: "r2 = ?command @ CHR '':'' # r4"
      using d3 by (metis takeWhile_dropWhile_id)
    have r4: "r4 = ?pattern @ '')''"
      using d5 by (metis takeWhile_dropWhile_id)
    have pset: "\<forall>c \<in> set ?pattern. notColonParen c"
      by (auto dest: set_takeWhileD)
    from tool d1 command False d3 pattern d5
    have "FindStringSubmatch s = [s, ?tool, ?command, ?pattern]"
      by (simp add: FindStringSubmatch_def Let_def)
    moreover have "s = ?tool @ ''('' @ ?command @ '':'' @ ?pattern @ '')''"
      using s r2 r4 by (metis append_Cons append_Nil)
    ultimately show ?thesis
      using tool command pattern tset cset pset
      by (intro exI [of _ ?tool] exI [of _ ?command] exI [of _ ?pattern]) auto
  qed
qed

subsection \<open>ParseToolPermission\<close>

lemma ParseToolPermission_legacy:
  "s \<noteq> '''' \<Longrightarrow> CHR ''('' \<notin> set s \<Longrightarrow>
   ParseToolPermission s =
     Inr \<lparr>Tool = TrimSpace s, Command = '''', Pattern = '''', Original = s\<rparr>"
  by (simp add: ParseToolPermission_def Contains_single)

text \<open>
  The enhanced form checks the trimmed tool name and rejects an empty one; the legacy
  form returns the trimmed input without that check.
\<close>

lemma ParseToolPermission_enhanced_tool:
  "CHR ''('' \<in> set s \<Longrightarrow> ParseToolPermission s = Inr tp \<Longrightarrow> Tool tp \<noteq> ''''"
  by (auto simp: ParseToolPermission_def Let_def Contains_single split: if_splits)

text \<open>
  C3. Every permission that ParseToolPermission returns without an error has a non-empty
  tool name. The code does not establish this on the legacy path: for the input that
  consists of one space it returns, without an error, a permission whose tool name is
  the empty string.
\<close>

theorem ParseToolPermission_blank_legacy:
  "ParseToolPermission '' '' =
     Inr \<lparr>Tool = '''', Command = '''', Pattern = '''', Original = '' ''\<rparr>"
  by code_simp

text \<open>
  C4. \<^verbatim>\<open>Bash(git log:*)\<close> parses to tool \<^verbatim>\<open>Bash\<close>, command \<^verbatim>\<open>git log\<close> and pattern
  \<^verbatim>\<open>*\<close>; \<^verbatim>\<open>Bash()\<close>, the empty string and \<^verbatim>\<open>Bash(a:b:c)\<close> are errors; and every non-empty
  string without an opening parenthesis parses without an error.
\<close>

theorem ParseToolPermission_forms:
  "ParseToolPermission ''Bash(git log:*)'' =
     Inr \<lparr>Tool = ''Bash'', Command = ''git log'', Pattern = ''*'',
          Original = ''Bash(git log:*)''\<rparr>
   \<and> isl (ParseToolPermission ''Bash()'')
   \<and> isl (ParseToolPermission '''')
   \<and> isl (ParseToolPermission ''Bash(a:b:c)'')
   \<and> (\<forall>s. s \<noteq> '''' \<and> CHR ''('' \<notin> set s \<longrightarrow> \<not> isl (ParseToolPermission s))"
proof -
  have a: "ParseToolPermission ''Bash(git log:*)'' =
     Inr \<lparr>Tool = ''Bash'', Command = ''git log'', Pattern = ''*'',
          Original = ''Bash(git log:*)''\<rparr>"
    by code_simp
  have b: "isl (ParseToolPermission ''Bash()'')" by code_simp
  have c: "isl (ParseToolPermission '''')" by code_simp
  have d: "isl (ParseToolPermission ''Bash(a:b:c)'')" by code_simp
  have e: "\<forall>s. s \<noteq> '''' \<and> CHR ''('' \<notin> set s \<longrightarrow> \<not> isl (ParseToolPermission s)"
    by (simp add: ParseToolPermission_legacy)
  from a b c d e show ?thesis by blast
qed

theorem ParseToolPermission_forms_witness:
  "''mcp__server__tool'' \<noteq> '''' \<and> CHR ''('' \<notin> set ''mcp__server__tool''
   \<and> \<not> isl (ParseToolPermission ''mcp__server__tool'')"
proof -
  have h: "''mcp__server__tool'' \<noteq> '''' \<and> CHR ''('' \<notin> set ''mcp__server__tool''"
    by simp
  have "\<forall>s. s \<noteq> '''' \<and> CHR ''('' \<notin> set s \<longrightarrow> \<not> isl (ParseToolPermission s)"
    using ParseToolPermission_forms by blast
  with h have "\<not> isl (ParseToolPermission ''mcp__server__tool'')" by blast
  with h show ?thesis by blast
qed

subsection \<open>MatchesPattern\<close>

lemma MatchesPattern_refines:
  "MatchesPattern tp path = MatchesPattern_spec (Pattern tp) path"
  by (simp add: MatchesPattern_def MatchesPattern_spec_def HasPattern_def
      HasPrefix_iff_prefix HasSuffix_iff_suffix TrimSuffix_two TrimSuffix_one TrimPrefix_one)

lemma MatchesPattern_examples:
  "MatchesPattern (tp\<lparr>Pattern := ''src/**''\<rparr>) ''src/file.go''"
  "\<not> MatchesPattern (tp\<lparr>Pattern := ''src/**''\<rparr>) ''test/file.go''"
  "MatchesPattern (tp\<lparr>Pattern := ''*.go''\<rparr>) ''main.go''"
  "\<not> MatchesPattern (tp\<lparr>Pattern := ''*.go''\<rparr>) ''main.js''"
  by (simp_all add: MatchesPattern_def HasPattern_def HasPrefix_def HasSuffix_def
      TrimSuffix_def TrimPrefix_def)

text \<open>
  C5. MatchesPattern computes the decision sequence of the specification: no pattern,
  the pattern \<^verbatim>\<open>*\<close>, equality, a trailing \<^verbatim>\<open>**\<close>, a trailing \<^verbatim>\<open>*\<close>, a leading \<^verbatim>\<open>*\<close>,
  in that order. The pattern \<^verbatim>\<open>src/**\<close> matches \<^verbatim>\<open>src/file.go\<close> and not
  \<^verbatim>\<open>test/file.go\<close>; \<^verbatim>\<open>*.go\<close> matches \<^verbatim>\<open>main.go\<close> and not \<^verbatim>\<open>main.js\<close>.
\<close>

theorem MatchesPattern_decision_sequence:
  "MatchesPattern tp path = MatchesPattern_spec (Pattern tp) path
   \<and> MatchesPattern (tp\<lparr>Pattern := ''src/**''\<rparr>) ''src/file.go''
   \<and> \<not> MatchesPattern (tp\<lparr>Pattern := ''src/**''\<rparr>) ''test/file.go''
   \<and> MatchesPattern (tp\<lparr>Pattern := ''*.go''\<rparr>) ''main.go''
   \<and> \<not> MatchesPattern (tp\<lparr>Pattern := ''*.go''\<rparr>) ''main.js''"
  using MatchesPattern_refines MatchesPattern_examples by blast

theorem MatchesPattern_decision_sequence_witness:
  "MatchesPattern \<lparr>Tool = ''Write'', Command = ''edit'', Pattern = ''docs/*'',
      Original = ''Write(edit:docs/*)''\<rparr> ''docs/a.md''
     = MatchesPattern_spec ''docs/*'' ''docs/a.md''
   \<and> MatchesPattern_spec ''docs/*'' ''docs/a.md''"
proof -
  have spec: "MatchesPattern_spec ''docs/*'' ''docs/a.md''"
    by code_simp
  have "MatchesPattern \<lparr>Tool = ''Write'', Command = ''edit'', Pattern = ''docs/*'',
      Original = ''Write(edit:docs/*)''\<rparr> ''docs/a.md''
     = MatchesPattern_spec (Pattern \<lparr>Tool = ''Write'', Command = ''edit'',
         Pattern = ''docs/*'', Original = ''Write(edit:docs/*)''\<rparr>) ''docs/a.md''"
    using MatchesPattern_decision_sequence by (rule conjunct1)
  then have "MatchesPattern \<lparr>Tool = ''Write'', Command = ''edit'', Pattern = ''docs/*'',
      Original = ''Write(edit:docs/*)''\<rparr> ''docs/a.md''
     = MatchesPattern_spec ''docs/*'' ''docs/a.md''"
    by simp
  then show ?thesis using spec by (rule conjI)
qed

subsection \<open>ChainCallbacks\<close>

lemma ChainCallbacks_append:
  "allAllow pre ctx t i w = Some w1 \<Longrightarrow>
   ChainCallbacks (pre @ rest) ctx t i w = ChainCallbacks rest ctx t i w1"
proof (induction pre arbitrary: w)
  case Nil
  then show ?case by simp
next
  case (Cons a pre)
  show ?case
  proof (cases a)
    case None
    with Cons show ?thesis by simp
  next
    case (Some cb)
    with Cons show ?thesis
      by (auto split: prod.splits option.splits if_splits)
  qed
qed

lemma ChainCallbacks_all:
  "allAllow cbs ctx t i w = Some w' \<Longrightarrow>
   ChainCallbacks cbs ctx t i w = ((Allow, None), w')"
  using ChainCallbacks_append [of cbs ctx t i w w' "[]"] by simp

lemma ChainCallbacks_allow_only:
  "ChainCallbacks cbs ctx t i w = ((r, None), w') \<Longrightarrow> Behavior r = PermissionAllow \<Longrightarrow>
   allAllow cbs ctx t i w = Some w' \<and> r = Allow"
proof (induction cbs arbitrary: w)
  case Nil
  then show ?case by auto
next
  case (Cons a cbs)
  show ?case
  proof (cases a)
    case None
    with Cons show ?thesis by simp
  next
    case (Some cb)
    with Cons show ?thesis
      by (auto split: prod.splits option.splits if_splits)
  qed
qed

text \<open>
  C6. ChainCallbacks calls its non-nil callbacks in order. When the callbacks before one
  all allow and that one returns an error, the chain returns the error with the zero
  result, whatever callbacks follow; when that one returns a result that is not allow,
  the chain returns that result, whatever callbacks follow. The chain returns allow when
  every callback allows, and only then. A denying callback followed by an allowing one
  that counts its invocations gives the deny result and leaves the counter at zero.
\<close>

theorem ChainCallbacks_first_dissent:
  "(allAllow pre ctx t i w = Some w1 \<and> cb ctx t i w1 = ((r, Some err), w2) \<longrightarrow>
      ChainCallbacks (pre @ Some cb # post) ctx t i w =
        ((\<lparr>Behavior = '''', Message = ''''\<rparr>, Some err), w2))
   \<and> (allAllow pre ctx t i w = Some w1 \<and> cb ctx t i w1 = ((r, None), w2)
        \<and> Behavior r \<noteq> PermissionAllow \<longrightarrow>
      ChainCallbacks (pre @ Some cb # post) ctx t i w = ((r, None), w2))
   \<and> (allAllow cbs ctx t i w = Some w' \<longrightarrow>
      ChainCallbacks cbs ctx t i w = ((Allow, None), w'))
   \<and> (ChainCallbacks cbs ctx t i w = ((r', None), w') \<and> Behavior r' = PermissionAllow \<longrightarrow>
      allAllow cbs ctx t i w = Some w' \<and> r' = Allow)
   \<and> ChainCallbacks
        [Some (fixedCallback (Deny ''denied by cb1'', None)),
         Some (countingCallback (Allow, None))] ctx t i 0 =
      ((Deny ''denied by cb1'', None), 0)"
proof (intro conjI impI)
  assume "allAllow pre ctx t i w = Some w1 \<and> cb ctx t i w1 = ((r, Some err), w2)"
  then show "ChainCallbacks (pre @ Some cb # post) ctx t i w =
        ((\<lparr>Behavior = '''', Message = ''''\<rparr>, Some err), w2)"
    by (simp add: ChainCallbacks_append)
next
  assume "allAllow pre ctx t i w = Some w1 \<and> cb ctx t i w1 = ((r, None), w2)
        \<and> Behavior r \<noteq> PermissionAllow"
  then show "ChainCallbacks (pre @ Some cb # post) ctx t i w = ((r, None), w2)"
    by (simp add: ChainCallbacks_append)
next
  assume "allAllow cbs ctx t i w = Some w'"
  then show "ChainCallbacks cbs ctx t i w = ((Allow, None), w')"
    by (rule ChainCallbacks_all)
next
  assume a: "ChainCallbacks cbs ctx t i w = ((r', None), w') \<and> Behavior r' = PermissionAllow"
  then show "allAllow cbs ctx t i w = Some w'"
    using ChainCallbacks_allow_only [of cbs ctx t i w r' w'] by simp
  from a show "r' = Allow"
    using ChainCallbacks_allow_only [of cbs ctx t i w r' w'] by simp
next
  show "ChainCallbacks
        [Some (fixedCallback (Deny ''denied by cb1'', None)),
         Some (countingCallback (Allow, None))] ctx t i 0 =
      ((Deny ''denied by cb1'', None), 0)"
    by (simp add: fixedCallback_def Deny_def PermissionDeny_def PermissionAllow_def)
qed

theorem ChainCallbacks_first_dissent_witness:
  "allAllow [None, Some (countingCallback (Allow, None))] () ''Bash'' (zeroToolInput :: unit ToolInput) 0 = Some 1
   \<and> countingCallback (Ask ''confirm?'', None) () ''Bash'' (zeroToolInput :: unit ToolInput) 1 = ((Ask ''confirm?'', None), 2)
   \<and> Behavior (Ask ''confirm?'') \<noteq> PermissionAllow
   \<and> ChainCallbacks
        ([None, Some (countingCallback (Allow, None))]
          @ Some (countingCallback (Ask ''confirm?'', None))
          # [Some (countingCallback (Allow, None))]) () ''Bash'' (zeroToolInput :: unit ToolInput) 0 =
       ((Ask ''confirm?'', None), 2)"
proof -
  have h1: "allAllow [None, Some (countingCallback (Allow, None))] () ''Bash'' (zeroToolInput :: unit ToolInput) 0 = Some 1"
    by (simp add: countingCallback_def Allow_def)
  have h2: "countingCallback (Ask ''confirm?'', None) () ''Bash'' (zeroToolInput :: unit ToolInput) 1 =
      ((Ask ''confirm?'', None), 2)"
    by (simp add: countingCallback_def)
  have h3: "Behavior (Ask ''confirm?'') \<noteq> PermissionAllow"
    by (simp add: Ask_def PermissionAsk_def PermissionAllow_def)
  have "allAllow [None, Some (countingCallback (Allow, None))] () ''Bash'' (zeroToolInput :: unit ToolInput) 0 = Some 1
        \<and> countingCallback (Ask ''confirm?'', None) () ''Bash'' (zeroToolInput :: unit ToolInput) 1 =
            ((Ask ''confirm?'', None), 2)
        \<and> Behavior (Ask ''confirm?'') \<noteq> PermissionAllow \<longrightarrow>
      ChainCallbacks ([None, Some (countingCallback (Allow, None))]
          @ Some (countingCallback (Ask ''confirm?'', None))
          # [Some (countingCallback (Allow, None))]) () ''Bash'' (zeroToolInput :: unit ToolInput) 0 =
       ((Ask ''confirm?'', None), 2)"
    using ChainCallbacks_first_dissent
      [where pre = "[None, Some (countingCallback (Allow, None))]" and ctx = "()"
         and t = "''Bash''" and i = "zeroToolInput :: unit ToolInput" and w = 0 and ?w1.0 = 1
         and cb = "countingCallback (Ask ''confirm?'', None)" and r = "Ask ''confirm?''"
         and ?w2.0 = 2 and post = "[Some (countingCallback (Allow, None))]"]
    by blast
  with h1 h2 h3 show ?thesis by blast
qed

section \<open>Properties of the budget tracker\<close>

subsection \<open>Evaluating the arithmetic\<close>

lemma bitLen_0: "bitLen 0 = 0"
  by (simp add: bitLen.simps)

lemma bitLen_1: "bitLen (Suc 0) = Suc 0"
  by (subst bitLen.simps) (simp add: bitLen_0)

lemma bitLen_Bit0: "bitLen (numeral (Num.Bit0 n)) = Suc (bitLen (numeral n))"
  by (subst bitLen.simps) (simp del: One_nat_def)

lemma bitLen_Bit1: "bitLen (numeral (Num.Bit1 n)) = Suc (bitLen (numeral n))"
proof -
  have "(numeral (Num.Bit1 n) :: nat) div 2 = numeral n"
    by simp
  then show ?thesis
    by (subst bitLen.simps) (simp del: One_nat_def)
qed

lemmas bitLen_numeral = bitLen_0 bitLen_1 bitLen_Bit0 bitLen_Bit1

text \<open>
  Rounding at the edges of the format: ties go to the even significand, half of the
  smallest subnormal rounds to zero, the largest finite value is kept and the next
  half step overflows. Addition and multiplication are commutative.
\<close>

lemma float64_rounding_examples:
  "roundDyadic False (2 ^ 53 + 1) 0 = Finite False (2 ^ 52) 1"
  "roundDyadic False (2 ^ 53 + 3) 0 = Finite False (2 ^ 52 + 2) 1"
  "roundDyadic False 1 (- 1075) = Finite False 0 (- 1074)"
  "roundDyadic False 3 (- 1075) = Finite False 2 (- 1074)"
  "roundDyadic True (2 ^ 53 - 1) 971 = Finite True (2 ^ 53 - 1) 971"
  "roundDyadic False (2 ^ 54 - 1) 970 = Infinity False"
  by (simp_all add: roundDyadic_def bitLen_numeral Let_def)

lemma fadd_commute: "fadd x y = fadd y x"
  by (cases x; cases y) (auto simp: Let_def min.commute add.commute conj_commute)

lemma fmul_commute: "fmul x y = fmul y x"
proof -
  have "(s \<noteq> t) = (t \<noteq> s)" for s t :: bool by auto
  then show ?thesis
    by (cases x; cases y) (simp_all add: mult.commute add.commute)
qed

lemma ofInt_values:
  "ofInt 0 = Finite False 0 (- 1074)"
  "ofInt 5 = Finite False (5 * 2 ^ 50) (- 50)"
  "ofInt 6 = Finite False (6 * 2 ^ 50) (- 50)"
  "ofInt 10 = Finite False (10 * 2 ^ 49) (- 49)"
  "ofInt 11 = Finite False (11 * 2 ^ 49) (- 49)"
  "ofInt (- 1) = Finite True (2 ^ 52) (- 52)"
  by (simp_all add: ofInt_def roundDyadic_def bitLen_numeral Let_def)

lemma float_facts:
  "fadd (ofInt 0) (ofInt 5) = ofInt 5"
  "fadd (ofInt 5) (ofInt 6) = ofInt 11"
  "fsub (ofInt 10) (ofInt 11) = ofInt (- 1)"
  "fsub (ofInt 11) (ofInt 11) = ofInt 0"
  "flt (ofInt (- 1)) (ofInt 0)"
  "fgt (ofInt 10) (ofInt 0)"
  "\<not> fle (ofInt 10) (ofInt 0)"
  "\<not> fgt (ofInt 5) (ofInt 10)"
  "fgt (ofInt 11) (ofInt 10)"
  by (simp_all add: ofInt_values roundDyadic_def bitLen_numeral fsub_def fgt_def
      signedMant_def Let_def)

subsection \<open>AddSpend\<close>

lemma AddSpend_state:
  assumes "AddSpend bt sessionID amount = (err, bt', started)"
  shows "totalSpent bt' = fadd (totalSpent bt) amount"
    and "sessionSpent bt' =
           (sessionSpent bt)(sessionID \<mapsto> fadd (SessionSpent bt sessionID) amount)"
    and "BudgetTracker.config bt' = BudgetTracker.config bt"
  using assms
  by (auto simp: AddSpend_def Let_def SessionSpent_def split: if_splits)

lemma AddSpend_error:
  assumes "AddSpend bt sessionID amount = (err, bt', started)"
  shows "err = (if fgt (MaxBudgetUSD (BudgetTracker.config bt)) (ofInt 0)
                   \<and> fgt (fadd (totalSpent bt) amount) (MaxBudgetUSD (BudgetTracker.config bt))
                then Some ErrBudgetExceeded else None)"
  using assms
  by (auto simp: AddSpend_def Let_def split: if_splits)

lemma budget_round_trip:
  fixes th :: float64 and hw he :: "(float64 \<Rightarrow> float64 \<Rightarrow> 'e) option"
  defines "bt0 \<equiv> NewBudgetTracker (Some \<lparr>MaxBudgetUSD = ofInt 10, WarningThreshold = th,
                      OnBudgetWarning = hw, OnBudgetExceeded = he\<rparr>)"
  defines "r1 \<equiv> AddSpend bt0 ''s1'' (ofInt 5)"
  defines "r2 \<equiv> AddSpend (fst (snd r1)) ''s1'' (ofInt 6)"
  shows "fst r1 = None"
    and "fst r2 = Some ErrBudgetExceeded"
    and "TotalSpent (fst (snd r2)) = ofInt 11"
    and "RemainingBudget (fst (snd r2)) = ofInt 0"
    and "TotalSpent (ResetSession (fst (snd r2)) ''s1'') = ofInt 0"
    and "SessionSpent (ResetSession (fst (snd r2)) ''s1'') ''s1'' = ofInt 0"
proof -
  obtain e1 bt1 s1 where r1: "AddSpend bt0 ''s1'' (ofInt 5) = (e1, bt1, s1)"
    by (metis prod_cases3)
  obtain e2 bt2 s2 where r2: "AddSpend bt1 ''s1'' (ofInt 6) = (e2, bt2, s2)"
    by (metis prod_cases3)
  have c0: "BudgetTracker.config bt0 = \<lparr>MaxBudgetUSD = ofInt 10, WarningThreshold = th,
                      OnBudgetWarning = hw, OnBudgetExceeded = he\<rparr>"
    and t0: "totalSpent bt0 = ofInt 0" and s0: "sessionSpent bt0 = Map.empty"
    by (simp_all add: bt0_def NewBudgetTracker_def)
  have t1: "totalSpent bt1 = ofInt 5"
    using AddSpend_state(1) [OF r1] by (simp add: t0 float_facts)
  have s1: "sessionSpent bt1 = [''s1'' \<mapsto> ofInt 5]"
    using AddSpend_state(2) [OF r1] by (simp add: s0 SessionSpent_def float_facts)
  have c1: "BudgetTracker.config bt1 = BudgetTracker.config bt0"
    using AddSpend_state(3) [OF r1] .
  have t2: "totalSpent bt2 = ofInt 11"
    using AddSpend_state(1) [OF r2] by (simp add: t1 float_facts)
  have s2: "sessionSpent bt2 = [''s1'' \<mapsto> ofInt 11]"
    using AddSpend_state(2) [OF r2] by (simp add: s1 SessionSpent_def float_facts)
  have c2: "BudgetTracker.config bt2 = BudgetTracker.config bt0"
    using AddSpend_state(3) [OF r2] c1 by simp
  have e1: "e1 = None"
    using AddSpend_error [OF r1] by (simp add: c0 t0 float_facts)
  have e2: "e2 = Some ErrBudgetExceeded"
    using AddSpend_error [OF r2] by (simp add: c0 c1 t1 float_facts)
  show "fst r1 = None" by (simp add: r1_def r1 e1)
  show "fst r2 = Some ErrBudgetExceeded" by (simp add: r2_def r1_def r1 r2 e2)
  show "TotalSpent (fst (snd r2)) = ofInt 11"
    by (simp add: r2_def r1_def r1 r2 TotalSpent_def t2)
  show "RemainingBudget (fst (snd r2)) = ofInt 0"
    by (simp add: r2_def r1_def r1 r2 RemainingBudget_def c2 c0 t2 float_facts Let_def)
  show "TotalSpent (ResetSession (fst (snd r2)) ''s1'') = ofInt 0"
    by (simp add: r2_def r1_def r1 r2 TotalSpent_def ResetSession_def s2 t2 float_facts)
  show "SessionSpent (ResetSession (fst (snd r2)) ''s1'') ''s1'' = ofInt 0"
    by (simp add: r2_def r1_def r1 r2 SessionSpent_def ResetSession_def s2)
qed

text \<open>
  C7. AddSpend always adds the amount to the global total and to the session's total,
  and it returns ErrBudgetExceeded exactly when a positive MaxBudgetUSD is configured and
  the new global total is greater; otherwise it returns no error. From an empty tracker
  with a maximum of 10, whatever the warning threshold and the hooks, spending 5 and then
  6 in session \<^verbatim>\<open>s1\<close> succeeds the first time, returns ErrBudgetExceeded the second time
  and leaves a total of 11 and a remaining budget of 0; ResetSession of \<^verbatim>\<open>s1\<close> then
  brings the global and the session total back to 0.
\<close>

theorem AddSpend_records_and_reports:
  "(AddSpend bt sessionID amount = (err, bt', started) \<longrightarrow>
      TotalSpent bt' = fadd (TotalSpent bt) amount
      \<and> SessionSpent bt' sessionID = fadd (SessionSpent bt sessionID) amount
      \<and> (err = Some ErrBudgetExceeded \<longleftrightarrow>
           fgt (MaxBudgetUSD (BudgetTracker.config bt)) (ofInt 0)
           \<and> fgt (TotalSpent bt') (MaxBudgetUSD (BudgetTracker.config bt)))
      \<and> (err = None \<longleftrightarrow>
           \<not> (fgt (MaxBudgetUSD (BudgetTracker.config bt)) (ofInt 0)
               \<and> fgt (TotalSpent bt') (MaxBudgetUSD (BudgetTracker.config bt)))))
   \<and> (let bt0 = NewBudgetTracker (Some \<lparr>MaxBudgetUSD = ofInt 10, WarningThreshold = th,
                    OnBudgetWarning = hw, OnBudgetExceeded = he\<rparr>);
           r1 = AddSpend bt0 ''s1'' (ofInt 5);
           r2 = AddSpend (fst (snd r1)) ''s1'' (ofInt 6);
           bt2 = fst (snd r2);
           bt3 = ResetSession bt2 ''s1''
       in fst r1 = None
          \<and> fst r2 = Some ErrBudgetExceeded
          \<and> TotalSpent bt2 = ofInt 11
          \<and> RemainingBudget bt2 = ofInt 0
          \<and> TotalSpent bt3 = ofInt 0
          \<and> SessionSpent bt3 ''s1'' = ofInt 0)"
proof (intro conjI impI)
  assume a: "AddSpend bt sessionID amount = (err, bt', started)"
  show t: "TotalSpent bt' = fadd (TotalSpent bt) amount"
    using AddSpend_state(1) [OF a] by (simp add: TotalSpent_def)
  show "SessionSpent bt' sessionID = fadd (SessionSpent bt sessionID) amount"
    using AddSpend_state(2) [OF a] by (simp add: SessionSpent_def)
  show "err = Some ErrBudgetExceeded \<longleftrightarrow>
           fgt (MaxBudgetUSD (BudgetTracker.config bt)) (ofInt 0)
           \<and> fgt (TotalSpent bt') (MaxBudgetUSD (BudgetTracker.config bt))"
    using AddSpend_error [OF a] t by (simp add: TotalSpent_def)
  show "err = None \<longleftrightarrow>
           \<not> (fgt (MaxBudgetUSD (BudgetTracker.config bt)) (ofInt 0)
               \<and> fgt (TotalSpent bt') (MaxBudgetUSD (BudgetTracker.config bt)))"
    using AddSpend_error [OF a] t by (simp add: TotalSpent_def)
next
  show "let bt0 = NewBudgetTracker (Some \<lparr>MaxBudgetUSD = ofInt 10, WarningThreshold = th,
                    OnBudgetWarning = hw, OnBudgetExceeded = he\<rparr>);
           r1 = AddSpend bt0 ''s1'' (ofInt 5);
           r2 = AddSpend (fst (snd r1)) ''s1'' (ofInt 6);
           bt2 = fst (snd r2);
           bt3 = ResetSession bt2 ''s1''
       in fst r1 = None
          \<and> fst r2 = Some ErrBudgetExceeded
          \<and> TotalSpent bt2 = ofInt 11
          \<and> RemainingBudget bt2 = ofInt 0
          \<and> TotalSpent bt3 = ofInt 0
          \<and> SessionSpent bt3 ''s1'' = ofInt 0"
    unfolding Let_def using budget_round_trip [of th hw he] by blast
qed

theorem AddSpend_records_and_reports_witness:
  "AddSpend (NewBudgetTracker None :: unit BudgetTracker) ''s1'' (ofInt 5) =
     (None,
      (NewBudgetTracker None)\<lparr>totalSpent := ofInt 5, sessionSpent := [''s1'' \<mapsto> ofInt 5]\<rparr>,
      [])
   \<and> TotalSpent ((NewBudgetTracker None :: unit BudgetTracker)
        \<lparr>totalSpent := ofInt 5, sessionSpent := [''s1'' \<mapsto> ofInt 5]\<rparr>) =
       fadd (TotalSpent (NewBudgetTracker None :: unit BudgetTracker)) (ofInt 5)
   \<and> SessionSpent ((NewBudgetTracker None :: unit BudgetTracker)
        \<lparr>totalSpent := ofInt 5, sessionSpent := [''s1'' \<mapsto> ofInt 5]\<rparr>) ''s1'' =
       fadd (SessionSpent (NewBudgetTracker None :: unit BudgetTracker) ''s1'') (ofInt 5)"
proof -
  have z: "\<not> fgt (ofInt 0) (ofInt 0)"
    by (simp add: ofInt_values fgt_def)
  have h: "AddSpend (NewBudgetTracker None :: unit BudgetTracker) ''s1'' (ofInt 5) =
     (None,
      (NewBudgetTracker None)\<lparr>totalSpent := ofInt 5, sessionSpent := [''s1'' \<mapsto> ofInt 5]\<rparr>,
      [])"
    by (simp add: AddSpend_def NewBudgetTracker_def SessionSpent_def z float_facts)
  from AddSpend_records_and_reports [THEN conjunct1, rule_format, OF h] h
  show ?thesis by blast
qed

section \<open>Properties of the plugin manager\<close>

subsection \<open>Register keeps the registry in priority order\<close>

lemma set_insertEntry: "set (insertEntry e xs) = insert e (set xs)"
  by (induction xs) auto

lemma insertEntry_sorted:
  "sorted (map priority xs) \<Longrightarrow> sorted (map priority (insertEntry e xs))"
  by (induction xs) (auto simp: set_insertEntry)

lemma insertEntry_filter:
  "sorted (map priority xs) \<Longrightarrow>
   filter (\<lambda>x. priority x = k) (insertEntry e xs) =
   filter (\<lambda>x. priority x = k) xs @ (if priority e = k then [e] else [])"
proof (induction xs)
  case Nil
  then show ?case by simp
next
  case (Cons x xs)
  show ?case
  proof (cases "priority e < priority x")
    case True
    with Cons.prems have "\<forall>y \<in> set (x # xs). priority e < priority y"
      by auto
    then have "priority e = k \<Longrightarrow> filter (\<lambda>y. priority y = k) (x # xs) = []"
      by (auto simp: filter_empty_conv)
    with True show ?thesis by auto
  next
    case False
    with Cons show ?thesis by auto
  qed
qed

lemma entriesOf_store:
  "(\<And>m. store' (Given m) = store (Given m)) \<Longrightarrow>
   entriesOf store' n regs = entriesOf store n regs"
  by (induction store n regs rule: entriesOf.induct)
    (simp_all add: effectivePriority_def configOf_def)

lemma effectivePriority_None: "effectivePriority store None = 100"
  by (simp add: effectivePriority_def configOf_def)

lemma entriesOf_names:
  "map (\<lambda>entry. Name (plugin entry))
     (filter (\<lambda>entry. priority entry = k) (entriesOf store n regs)) =
   map (\<lambda>reg. Name (fst reg)) (filter (\<lambda>reg. effectivePriority store (snd reg) = k) regs)"
  by (induction store n regs rule: entriesOf.induct)
    (auto simp: effectivePriority_None)

text \<open>
  A successful Register call inserts the entry of the registration. It leaves the
  caller's objects, the plugins' state and the history as they are, and it allocates one
  object, holding the default configuration, when the caller gave none.
\<close>

lemma Register_success:
  assumes "Register pm (Some p) c a = (None, pm', a')"
  shows "plugins pm' = insertEntry (hd (entriesOf (configs a) (allocated a) [(p, c)])) (plugins pm)"
    and "initialized pm' = initialized pm"
    and "configs a' (Given m) = configs a (Given m)"
    and "world a' = world a" and "calls a' = calls a"
    and "allocated a' = (if c = None then Suc (allocated a) else allocated a)"
    and "i < allocated a \<Longrightarrow> configs a' (Default i) = configs a (Default i)"
    and "allocated a \<le> i \<Longrightarrow> i < allocated a' \<Longrightarrow>
         configs a' (Default i) = \<lparr>Enabled = True, Priority = 100, Config = Map.empty\<rparr>"
  using assms
  by (auto simp: Register_def newConfig_def effectivePriority_def configOf_def Let_def
      split: if_splits option.splits)

lemma registerAll_order:
  "registerAll pm regs a = Some (pm', a') \<Longrightarrow> sorted (map priority (plugins pm)) \<Longrightarrow>
   sorted (map priority (plugins pm'))
   \<and> (\<forall>k. filter (\<lambda>x. priority x = k) (plugins pm') =
        filter (\<lambda>x. priority x = k) (plugins pm) @
        filter (\<lambda>x. priority x = k) (entriesOf (configs a) (allocated a) regs))
   \<and> (\<forall>m. configs a' (Given m) = configs a (Given m))
   \<and> world a' = world a \<and> calls a' = calls a
   \<and> allocated a \<le> allocated a'
   \<and> (\<forall>i < allocated a. configs a' (Default i) = configs a (Default i))
   \<and> (\<forall>i. allocated a \<le> i \<and> i < allocated a' \<longrightarrow>
         configs a' (Default i) = \<lparr>Enabled = True, Priority = 100, Config = Map.empty\<rparr>)"
proof (induction regs arbitrary: pm a)
  case Nil
  then show ?case by auto
next
  case (Cons reg regs)
  obtain p c where reg: "reg = (p, c)" by (cases reg)
  from Cons.prems(1) reg obtain pm1 a1 where
    r: "Register pm (Some p) c a = (None, pm1, a1)"
    and rest: "registerAll pm1 regs a1 = Some (pm', a')"
    by (auto split: prod.splits option.splits)
  note rs = Register_success [OF r]
  have s1: "sorted (map priority (plugins pm1))"
    using Cons.prems(2) by (simp add: rs(1) insertEntry_sorted)
  note ih = Cons.IH [OF rest s1]
  have store: "entriesOf (configs a1) n regs = entriesOf (configs a) n regs" for n
    by (rule entriesOf_store) (rule rs(3))
  have split: "entriesOf (configs a) (allocated a) ((p, c) # regs) =
      hd (entriesOf (configs a) (allocated a) [(p, c)]) # entriesOf (configs a) (allocated a1) regs"
    by (cases c) (simp_all add: rs(6))
  have "filter (\<lambda>x. priority x = k) (plugins pm') =
        filter (\<lambda>x. priority x = k) (plugins pm) @
        filter (\<lambda>x. priority x = k) (entriesOf (configs a) (allocated a) (reg # regs))" for k
    using ih Cons.prems(2) by (simp add: rs(1) insertEntry_filter reg store split)
  moreover have "configs a' (Given m) = configs a (Given m)" for m
    using ih by (simp add: rs(3))
  moreover have "world a' = world a \<and> calls a' = calls a \<and> allocated a \<le> allocated a'"
    using ih by (auto simp: rs(4) rs(5) rs(6) split: if_splits)
  moreover have "configs a' (Default i) = configs a (Default i)" if "i < allocated a" for i
  proof -
    from that have "i < allocated a1" by (simp add: rs(6))
    with ih have "configs a' (Default i) = configs a1 (Default i)" by simp
    with that show ?thesis by (simp add: rs(7))
  qed
  moreover have "configs a' (Default i) = \<lparr>Enabled = True, Priority = 100, Config = Map.empty\<rparr>"
    if "allocated a \<le> i" "i < allocated a'" for i
  proof (cases "i < allocated a1")
    case True
    with ih have "configs a' (Default i) = configs a1 (Default i)" by simp
    with that True show ?thesis by (simp add: rs(8))
  next
    case False
    with ih that show ?thesis by simp
  qed
  ultimately show ?case using ih by blast
qed

lemma register_example:
  "map_option (\<lambda>(pm, a'). List pm)
     (registerAll NewPluginManager
        [(p\<lparr>Name := ''A''\<rparr>, Some 0), (p\<lparr>Name := ''B''\<rparr>, Some 1), (p\<lparr>Name := ''C''\<rparr>, Some 2)]
        (a\<lparr>configs := (configs a)
              (Given 0 := c\<lparr>Priority := 200\<rparr>,
               Given 1 := c\<lparr>Priority := 50\<rparr>,
               Given 2 := c\<lparr>Priority := 100\<rparr>)\<rparr>)) =
   Some [''B'', ''C'', ''A'']"
  by (simp add: Register_def NewPluginManager_def List_def Let_def)

text \<open>
  C1. After any sequence of successful Register calls on a new manager, List returns the
  names of the entries in registry order, the priorities of the entries are in
  non-decreasing order, and the entries of each priority are the registrations of that
  effective priority in registration order: each entry holds the plugin and the pointer
  of its registration, the caller's objects are as they were, and an entry registered
  without configuration points to an object of its own that holds the default
  configuration. Registering A, B and C with priorities 200, 50 and 100 gives the list
  B, C, A.
\<close>

theorem Register_priority_order:
  "(registerAll NewPluginManager regs a = Some (pm, a') \<longrightarrow>
      List pm = map (\<lambda>entry. Name (plugin entry)) (plugins pm)
      \<and> sorted (map priority (plugins pm))
      \<and> (\<forall>k. filter (\<lambda>entry. priority entry = k) (plugins pm) =
               filter (\<lambda>entry. priority entry = k)
                 (entriesOf (configs a) (allocated a) regs))
      \<and> (\<forall>k. map (\<lambda>entry. Name (plugin entry))
                 (filter (\<lambda>entry. priority entry = k) (plugins pm)) =
               map (\<lambda>reg. Name (fst reg))
                 (filter (\<lambda>reg. effectivePriority (configs a) (snd reg) = k) regs))
      \<and> (\<forall>m. configs a' (Given m) = configs a (Given m))
      \<and> (\<forall>i. allocated a \<le> i \<and> i < allocated a' \<longrightarrow>
               configs a' (Default i) =
                 \<lparr>Enabled = True, Priority = 100, Config = Map.empty\<rparr>))
   \<and> map_option (\<lambda>(pm, a'). List pm)
        (registerAll NewPluginManager
           [(p\<lparr>Name := ''A''\<rparr>, Some 0), (p\<lparr>Name := ''B''\<rparr>, Some 1),
            (p\<lparr>Name := ''C''\<rparr>, Some 2)]
           (a\<lparr>configs := (configs a)
                 (Given 0 := c\<lparr>Priority := 200\<rparr>,
                  Given 1 := c\<lparr>Priority := 50\<rparr>,
                  Given 2 := c\<lparr>Priority := 100\<rparr>)\<rparr>)) =
      Some [''B'', ''C'', ''A'']"
proof (intro conjI impI allI)
  assume r: "registerAll NewPluginManager regs a = Some (pm, a')"
  have s0: "sorted (map priority (plugins (NewPluginManager :: ('a, 'b, 'c, 'd, 'e) PluginManager)))"
    by (simp add: NewPluginManager_def)
  note ord = registerAll_order [OF r s0]
  show "List pm = map (\<lambda>entry. Name (plugin entry)) (plugins pm)"
    by (simp add: List_def)
  show "sorted (map priority (plugins pm))"
    using ord by simp
  show f: "filter (\<lambda>entry. priority entry = k) (plugins pm) =
            filter (\<lambda>entry. priority entry = k) (entriesOf (configs a) (allocated a) regs)" for k
    using ord by (simp add: NewPluginManager_def)
  show "map (\<lambda>entry. Name (plugin entry))
          (filter (\<lambda>entry. priority entry = k) (plugins pm)) =
        map (\<lambda>reg. Name (fst reg))
          (filter (\<lambda>reg. effectivePriority (configs a) (snd reg) = k) regs)" for k
    by (simp add: f entriesOf_names)
  show "configs a' (Given m) = configs a (Given m)" for m
    using ord by simp
  show "configs a' (Default i) = \<lparr>Enabled = True, Priority = 100, Config = Map.empty\<rparr>"
    if "allocated a \<le> i \<and> i < allocated a'" for i
    using ord that by blast
next
  show "map_option (\<lambda>(pm, a'). List pm)
        (registerAll NewPluginManager
           [(p\<lparr>Name := ''A''\<rparr>, Some 0), (p\<lparr>Name := ''B''\<rparr>, Some 1),
            (p\<lparr>Name := ''C''\<rparr>, Some 2)]
           (a\<lparr>configs := (configs a)
                 (Given 0 := c\<lparr>Priority := 200\<rparr>,
                  Given 1 := c\<lparr>Priority := 50\<rparr>,
                  Given 2 := c\<lparr>Priority := 100\<rparr>)\<rparr>)) =
      Some [''B'', ''C'', ''A'']"
    by (rule register_example)
qed

theorem Register_priority_order_witness:
  "\<exists>pm a'. registerAll NewPluginManager
           [(mockPlugin ''a'' None :: (unit, unit, unit, unit, nat) Plugin, None),
            (mockPlugin ''b'' None, Some 0),
            (mockPlugin ''c'' None, Some 51),
            (mockPlugin ''d'' None, Some 100)]
           (mockAmbient :: (unit, nat) ambient)
         = Some (pm, a')
       \<and> List pm = [''c'', ''a'', ''b'', ''d'']
       \<and> sorted (map priority (plugins pm))
       \<and> map config (plugins pm) =
           [Some (Given 51), Some (Default 0), Some (Given 0), Some (Given 100)]
       \<and> configs a' (Default 0) = \<lparr>Enabled = True, Priority = 100, Config = Map.empty\<rparr>"
proof -
  let ?regs = "[(mockPlugin ''a'' None :: (unit, unit, unit, unit, nat) Plugin, None),
            (mockPlugin ''b'' None, Some 0),
            (mockPlugin ''c'' None, Some 51),
            (mockPlugin ''d'' None, Some 100)]"
  let ?a = "mockAmbient :: (unit, nat) ambient"
  have "map_option (\<lambda>(pm, a'). (List pm, map config (plugins pm), allocated a'))
          (registerAll NewPluginManager ?regs ?a) =
        Some ([''c'', ''a'', ''b'', ''d''],
              [Some (Given 51), Some (Default 0), Some (Given 0), Some (Given 100)], 1)"
    by (simp add: Register_def NewPluginManager_def List_def Let_def mockPlugin_def
        mockAmbient_def mockConfigs_def newConfig_def)
  then obtain pm a' where r: "registerAll NewPluginManager ?regs ?a = Some (pm, a')"
    and l: "List pm = [''c'', ''a'', ''b'', ''d'']"
    and c: "map config (plugins pm) =
           [Some (Given 51), Some (Default 0), Some (Given 0), Some (Given 100)]"
    and n: "allocated a' = 1"
    by auto
  note inst = Register_priority_order [THEN conjunct1, rule_format, OF r]
  from inst have s: "sorted (map priority (plugins pm))" by simp
  from inst have "\<forall>i. allocated ?a \<le> i \<and> i < allocated a' \<longrightarrow>
       configs a' (Default i) = \<lparr>Enabled = True, Priority = 100, Config = Map.empty\<rparr>"
    by simp
  then have "configs a' (Default 0) = \<lparr>Enabled = True, Priority = 100, Config = Map.empty\<rparr>"
    using n by (simp add: mockAmbient_def)
  with r l c s show ?thesis by (intro exI conjI)
qed

subsection \<open>The dispatch loop\<close>

lemma enabledEntries_simps [simp]:
  "enabledEntries store [] = []"
  "enabledEntries store (e # es) =
     (if isDisabled store e then enabledEntries store es else e # enabledEntries store es)"
  "enabledEntries store (xs @ ys) = enabledEntries store xs @ enabledEntries store ys"
  by (simp_all add: enabledEntries_def)

lemma forEachEnabled_append:
  "allSucceed (configs a) h pre (world a) = Some w1 \<Longrightarrow>
   forEachEnabled h k wrap (pre @ rest) a =
   forEachEnabled h k wrap rest
     (a\<lparr>world := w1,
        calls := calls a @ map (callOf (configs a) k) (enabledEntries (configs a) pre)\<rparr>)"
proof (induction pre arbitrary: a)
  case Nil
  then show ?case by (cases a) auto
next
  case (Cons e pre)
  show ?case
  proof (cases "isDisabled (configs a) e")
    case True
    with Cons show ?thesis by simp
  next
    case False
    from Cons.prems False obtain w0 where h: "h e (world a) = (None, w0)"
      and rest: "allSucceed (configs a) h pre w0 = Some w1"
      by (auto split: prod.splits option.splits)
    let ?a0 = "a\<lparr>world := w0, calls := calls a @ [callOf (configs a) k e]\<rparr>"
    have "forEachEnabled h k wrap ((e # pre) @ rest) a =
          forEachEnabled h k wrap (pre @ rest) ?a0"
      using False h by (simp add: invoke_def)
    also have "\<dots> = forEachEnabled h k wrap rest
        (?a0\<lparr>world := w1,
             calls := calls ?a0 @ map (callOf (configs ?a0) k) (enabledEntries (configs ?a0) pre)\<rparr>)"
      using Cons.IH [of ?a0] rest by simp
    finally show ?thesis using False by simp
  qed
qed

lemma forEachEnabled_all:
  "allSucceed (configs a) h entries (world a) = Some w' \<Longrightarrow>
   forEachEnabled h k wrap entries a =
   (None, a\<lparr>world := w',
            calls := calls a @ map (callOf (configs a) k) (enabledEntries (configs a) entries)\<rparr>)"
  using forEachEnabled_append [of a h entries w' k wrap "[]"] by simp

lemma forEachEnabled_first_error:
  assumes "allSucceed (configs a) h pre (world a) = Some w1"
    and "\<not> isDisabled (configs a) e"
    and "h e w1 = (Some err, w2)"
  shows "forEachEnabled h k wrap (pre @ e # post) a =
    (Some (wrap (Name (plugin e)) err),
     a\<lparr>world := w2,
       calls := calls a @ map (callOf (configs a) k) (enabledEntries (configs a) pre)
                  @ [callOf (configs a) k e]\<rparr>)"
  using assms by (simp add: forEachEnabled_append invoke_def)

text \<open>
  Whatever the hooks return, the loop calls hooks of entries that are enabled, in the
  order of the list, and it changes neither the store nor the allocation count.
\<close>

lemma forEachEnabled_calls:
  "forEachEnabled h k wrap entries a = (res, a') \<Longrightarrow>
   prefix (drop (length (calls a)) (calls a'))
     (map (callOf (configs a) k) (enabledEntries (configs a) entries))
   \<and> length (calls a) \<le> length (calls a') \<and> take (length (calls a)) (calls a') = calls a
   \<and> configs a' = configs a \<and> allocated a' = allocated a"
proof (induction entries arbitrary: a)
  case Nil
  then show ?case by auto
next
  case (Cons e entries)
  show ?case
  proof (cases "isDisabled (configs a) e")
    case True
    with Cons show ?thesis by simp
  next
    case False
    obtain r0 w0 where h: "h e (world a) = (r0, w0)" by (cases "h e (world a)")
    let ?a0 = "a\<lparr>world := w0, calls := calls a @ [callOf (configs a) k e]\<rparr>"
    show ?thesis
    proof (cases r0)
      case None
      with Cons.prems False h have "forEachEnabled h k wrap entries ?a0 = (res, a')"
        by (simp add: invoke_def)
      from Cons.IH [OF this] have
        p: "prefix (drop (Suc (length (calls a))) (calls a'))
              (map (callOf (configs a) k) (enabledEntries (configs a) entries))"
        and l: "Suc (length (calls a)) \<le> length (calls a')"
        and t: "take (Suc (length (calls a))) (calls a') = calls a @ [callOf (configs a) k e]"
        and c: "configs a' = configs a" "allocated a' = allocated a"
        by simp_all
      from t have t': "take (length (calls a)) (calls a') = calls a"
        by (metis append_eq_conv_conj length_append_singleton take_all_iff take_take min.absorb1
            le_add2 le_SucI order_refl take_append diff_self_eq_0 take0 append_Nil2)
      have "drop (length (calls a)) (calls a') =
            callOf (configs a) k e # drop (Suc (length (calls a))) (calls a')"
        using t l
        by (metis Cons_nth_drop_Suc Suc_le_lessD lessI nth_append_length nth_take)
      with p False l t' c show ?thesis by simp
    next
      case (Some err)
      with Cons.prems False h have "a' = ?a0"
        by (simp add: invoke_def)
      with False show ?thesis by simp
    qed
  qed
qed

lemma forEachEnabled_success:
  "forEachEnabled h k wrap entries a = (None, a') \<Longrightarrow>
   allSucceed (configs a) h entries (world a) = Some (world a')"
proof (induction entries arbitrary: a)
  case Nil
  then show ?case by simp
next
  case (Cons e entries)
  show ?case
  proof (cases "isDisabled (configs a) e")
    case True
    with Cons show ?thesis by simp
  next
    case False
    with Cons.prems obtain w0 where h: "h e (world a) = (None, w0)"
      and rest: "forEachEnabled h k wrap entries
                   (a\<lparr>world := w0, calls := calls a @ [callOf (configs a) k e]\<rparr>) = (None, a')"
      by (auto simp: invoke_def split: prod.splits option.splits)
    from Cons.IH [OF rest] False h show ?thesis by simp
  qed
qed

subsection \<open>Managers that the operations can reach\<close>

lemma removeNamed_keeps:
  "removeNamed name xs = Some ys \<Longrightarrow>
   set ys \<subseteq> set xs
   \<and> (sorted (map priority xs) \<longrightarrow> sorted (map priority ys))
   \<and> (distinct (map (\<lambda>e. Name (plugin e)) xs) \<longrightarrow> distinct (map (\<lambda>e. Name (plugin e)) ys))"
proof (induction xs arbitrary: ys)
  case Nil
  then show ?case by simp
next
  case (Cons x xs)
  show ?case
  proof (cases "Name (plugin x) = name")
    case True
    with Cons.prems show ?thesis by auto
  next
    case False
    with Cons.prems obtain zs where zs: "removeNamed name xs = Some zs" and ys: "ys = x # zs"
      by auto
    from Cons.IH [OF zs] ys show ?thesis by auto
  qed
qed

lemma enableNamed_keys:
  "enableNamed name b xs a = Some (ys, a') \<Longrightarrow>
   map priority ys = map priority xs
   \<and> map (\<lambda>e. Name (plugin e)) ys = map (\<lambda>e. Name (plugin e)) xs
   \<and> world a' = world a \<and> calls a' = calls a"
  by (induction xs arbitrary: ys)
    (auto simp: newConfig_def split: if_splits option.splits)

lemma insertEntry_distinct:
  "distinct (map (\<lambda>e. Name (plugin e)) xs) \<Longrightarrow>
   Name (plugin e) \<notin> set (map (\<lambda>e. Name (plugin e)) xs) \<Longrightarrow>
   distinct (map (\<lambda>e. Name (plugin e)) (insertEntry e xs))"
  by (induction xs) (auto simp: set_insertEntry)

lemma Register_failure:
  "fst (Register pm p c a) \<noteq> None \<Longrightarrow> snd (Register pm p c a) = (pm, a)"
  by (auto simp: Register_def Let_def split: option.splits if_splits prod.splits)

lemma Register_wellOrdered:
  "wellOrdered pm \<Longrightarrow> wellOrdered (fst (snd (Register pm p c a)))"
proof (cases "fst (Register pm p c a)")
  case (Some err)
  assume w: "wellOrdered pm"
  from Some have "snd (Register pm p c a) = (pm, a)"
    by (simp add: Register_failure)
  with w show ?thesis by simp
next
  case None
  assume w: "wellOrdered pm"
  from None obtain q where p: "p = Some q"
    by (cases p) (auto simp: Register_def)
  from None p have fresh: "Name q \<notin> set (map (\<lambda>e. Name (plugin e)) (plugins pm))"
    by (auto simp: Register_def Let_def list_ex_iff split: if_splits)
  from None p have "Register pm (Some q) c a =
      (None, fst (snd (Register pm p c a)), snd (snd (Register pm p c a)))"
    by (metis prod.collapse)
  from Register_success(1) [OF this]
  have pl: "plugins (fst (snd (Register pm p c a))) =
      insertEntry (hd (entriesOf (configs a) (allocated a) [(q, c)])) (plugins pm)" .
  have n: "Name (plugin (hd (entriesOf (configs a) (allocated a) [(q, c)]))) = Name q"
    by (cases c) simp_all
  from insertEntry_distinct [of "plugins pm" "hd (entriesOf (configs a) (allocated a) [(q, c)])"]
    w fresh
  show ?thesis
    by (simp add: wellOrdered_def pl insertEntry_sorted n)
qed

lemma Unregister_wellOrdered:
  "wellOrdered pm \<Longrightarrow> wellOrdered (snd (Unregister pm name))"
proof (cases "removeNamed name (plugins pm)")
  case None
  assume "wellOrdered pm"
  with None show ?thesis by (simp add: Unregister_def)
next
  case (Some ys)
  assume w: "wellOrdered pm"
  from removeNamed_keeps [OF Some] w
  have "sorted (map priority ys) \<and> distinct (map (\<lambda>e. Name (plugin e)) ys)"
    by (simp add: wellOrdered_def)
  with Some show ?thesis by (simp add: Unregister_def wellOrdered_def)
qed

lemma SetEnabled_wellOrdered:
  "wellOrdered pm \<Longrightarrow> wellOrdered (fst (snd (SetEnabled pm name b a)))"
  by (cases "enableNamed name b (plugins pm) a")
    (auto simp: SetEnabled_def wellOrdered_def dest: enableNamed_keys)

lemma Initialize_plugins: "plugins (fst (snd (Initialize pm ctx a))) = plugins pm"
  by (auto simp: Initialize_def split: prod.splits option.splits)

lemma Shutdown_plugins: "plugins (fst (snd (Shutdown pm ctx a))) = plugins pm"
  by (auto simp: Shutdown_def split: prod.splits)

lemma perform_wellOrdered:
  "wellOrdered (fst s) \<Longrightarrow> wellOrdered (fst (perform op s))"
proof (cases s)
  case (Pair pm a)
  assume "wellOrdered (fst s)"
  with Pair have w: "wellOrdered pm" by simp
  show ?thesis
  proof (cases op)
    case (InitializeOp ctx)
    with Pair w Initialize_plugins [of pm ctx a] show ?thesis
      by (simp add: wellOrdered_def)
  next
    case (ShutdownOp ctx)
    with Pair w Shutdown_plugins [of pm ctx a] show ?thesis
      by (simp add: wellOrdered_def)
  qed (use Pair w in \<open>simp_all add: Register_wellOrdered Unregister_wellOrdered
        SetEnabled_wellOrdered\<close>)
qed

lemma performAll_wellOrdered:
  "wellOrdered (fst s) \<Longrightarrow> wellOrdered (fst (performAll ops s))"
  unfolding performAll_def
  by (induction ops arbitrary: s) (simp_all add: perform_wellOrdered)

lemma reachable_wellOrdered:
  "wellOrdered (fst (performAll ops (NewPluginManager, a)))"
  by (rule performAll_wellOrdered) (simp add: wellOrdered_def NewPluginManager_def)

subsection \<open>OnToolCall, OnMessage and OnComplete\<close>

lemma mockEntry_simps:
  "Name (plugin (mockEntry name err n)) = name"
  "isDisabled mockConfigs (mockEntry name err n) = odd n"
  "callOf mockConfigs k (mockEntry name err n) =
     \<lparr>callee = name, hook = k, whileDisabled = odd n\<rparr>"
  "priority (mockEntry name err n) = (if n = 0 then 100 else int n)"
  "Plugin.Initialize (plugin (mockEntry name err n)) ctx w = (err, Suc w)"
  "Plugin.OnToolCall (plugin (mockEntry name err n)) ctx toolName input w = (err, Suc w)"
  "Plugin.OnMessage (plugin (mockEntry name err n)) ctx msg w = (err, Suc w)"
  "Plugin.OnComplete (plugin (mockEntry name err n)) ctx result w = (err, Suc w)"
  "Plugin.Shutdown (plugin (mockEntry name err n)) ctx w = (err, Suc w)"
  by (simp_all add: mockEntry_def mockPlugin_def isDisabled_def callOf_def mockConfigs_def)

lemma errorfNamed_wraps:
  "Unwrap (errorfNamed before name after err) = Some err"
  "Error (errorfNamed before name after err) = before @ quoted name @ after @ Error err"
  by (simp_all add: errorfNamed_def)

text \<open>
  C9. Each of OnToolCall, OnMessage and OnComplete calls its hook on the enabled entries
  in registry order, one after the other. When every hook returns nil the operation
  returns nil and has called the hook of every enabled entry. When the hooks of the
  enabled entries before an enabled entry \<open>e\<close> return nil and the hook of \<open>e\<close> returns
  an error, the operation returns that error wrapped with the name of \<open>e\<close>, and it has
  called the hooks of the enabled entries up to \<open>e\<close> and no other. The registry order of
  every manager that the operations can reach is the ascending order of the priorities.
\<close>

theorem hooks_fail_fast:
  "(allSucceed (configs a) (\<lambda>entry. Plugin.OnToolCall (plugin entry) ctx toolName input)
      (plugins pm) (world a) = Some w' \<longrightarrow>
    OnToolCall pm ctx toolName input a =
      (None, a\<lparr>world := w',
               calls := calls a @ map (callOf (configs a) OnToolCallHook)
                                    (enabledEntries (configs a) (plugins pm))\<rparr>))
   \<and> (plugins pm = pre @ e # post
       \<and> allSucceed (configs a) (\<lambda>entry. Plugin.OnToolCall (plugin entry) ctx toolName input)
            pre (world a) = Some w1
       \<and> \<not> isDisabled (configs a) e
       \<and> Plugin.OnToolCall (plugin e) ctx toolName input w1 = (Some err, w2) \<longrightarrow>
    OnToolCall pm ctx toolName input a =
      (Some (errorfNamed ''plugin '' (Name (plugin e)) '' rejected tool call: '' err),
       a\<lparr>world := w2,
         calls := calls a @ map (callOf (configs a) OnToolCallHook)
                              (enabledEntries (configs a) pre)
                    @ [callOf (configs a) OnToolCallHook e]\<rparr>))
   \<and> (allSucceed (configs a) (\<lambda>entry. Plugin.OnMessage (plugin entry) ctx msg) (plugins pm)
        (world a) = Some w' \<longrightarrow>
    OnMessage pm ctx msg a =
      (None, a\<lparr>world := w',
               calls := calls a @ map (callOf (configs a) OnMessageHook)
                                    (enabledEntries (configs a) (plugins pm))\<rparr>))
   \<and> (plugins pm = pre @ e # post
       \<and> allSucceed (configs a) (\<lambda>entry. Plugin.OnMessage (plugin entry) ctx msg) pre
            (world a) = Some w1
       \<and> \<not> isDisabled (configs a) e
       \<and> Plugin.OnMessage (plugin e) ctx msg w1 = (Some err, w2) \<longrightarrow>
    OnMessage pm ctx msg a =
      (Some (errorfNamed ''plugin '' (Name (plugin e)) '' error on message: '' err),
       a\<lparr>world := w2,
         calls := calls a @ map (callOf (configs a) OnMessageHook)
                              (enabledEntries (configs a) pre)
                    @ [callOf (configs a) OnMessageHook e]\<rparr>))
   \<and> (allSucceed (configs a) (\<lambda>entry. Plugin.OnComplete (plugin entry) ctx result)
        (plugins pm) (world a) = Some w' \<longrightarrow>
    OnComplete pm ctx result a =
      (None, a\<lparr>world := w',
               calls := calls a @ map (callOf (configs a) OnCompleteHook)
                                    (enabledEntries (configs a) (plugins pm))\<rparr>))
   \<and> (plugins pm = pre @ e # post
       \<and> allSucceed (configs a) (\<lambda>entry. Plugin.OnComplete (plugin entry) ctx result) pre
            (world a) = Some w1
       \<and> \<not> isDisabled (configs a) e
       \<and> Plugin.OnComplete (plugin e) ctx result w1 = (Some err, w2) \<longrightarrow>
    OnComplete pm ctx result a =
      (Some (errorfNamed ''plugin '' (Name (plugin e)) '' error on complete: '' err),
       a\<lparr>world := w2,
         calls := calls a @ map (callOf (configs a) OnCompleteHook)
                              (enabledEntries (configs a) pre)
                    @ [callOf (configs a) OnCompleteHook e]\<rparr>))
   \<and> Unwrap (errorfNamed before name after err) = Some err
   \<and> Error (errorfNamed before name after err) = before @ quoted name @ after @ Error err
   \<and> sorted (map priority (plugins (fst (performAll ops (NewPluginManager, a0)))))"
proof (intro conjI impI)
  show "sorted (map priority (plugins (fst (performAll ops (NewPluginManager, a0)))))"
    using reachable_wellOrdered [of ops a0] by (simp add: wellOrdered_def)
qed (simp_all add: OnToolCall_def OnMessage_def OnComplete_def forEachEnabled_all
      forEachEnabled_first_error errorfNamed_wraps)

theorem hooks_fail_fast_witness:
  "OnToolCall
     \<lparr>plugins = [mockEntry ''a'' None 10 :: (unit, unit, unit, unit, nat) pluginEntry,
                 mockEntry ''b'' (Some (errorString ''never'')) 21,
                 mockEntry ''c'' (Some (errorString ''boom'')) 30,
                 mockEntry ''d'' None 40],
      initialized = True\<rparr>
     () ''Bash'' (zeroToolInput :: unit ToolInput) mockAmbient =
   (Some (wrapError (''plugin '' @ quoted ''c'' @ '' rejected tool call: boom'')
            (errorString ''boom'')),
    \<lparr>world = 2,
     calls = [\<lparr>callee = ''a'', hook = OnToolCallHook, whileDisabled = False\<rparr>,
              \<lparr>callee = ''c'', hook = OnToolCallHook, whileDisabled = False\<rparr>],
     configs = mockConfigs, allocated = 0\<rparr>)
   \<and> OnMessage
     \<lparr>plugins = [mockEntry ''a'' None 10 :: (unit, unit, unit, unit, nat) pluginEntry,
                 mockEntry ''b'' (Some (errorString ''never'')) 21,
                 mockEntry ''d'' None 40],
      initialized = True\<rparr>
     () () mockAmbient =
   (None,
    \<lparr>world = 2,
     calls = [\<lparr>callee = ''a'', hook = OnMessageHook, whileDisabled = False\<rparr>,
              \<lparr>callee = ''d'', hook = OnMessageHook, whileDisabled = False\<rparr>],
     configs = mockConfigs, allocated = 0\<rparr>)"
proof -
  let ?a = "mockEntry ''a'' None 10 :: (unit, unit, unit, unit, nat) pluginEntry"
  let ?b = "mockEntry ''b'' (Some (errorString ''never'')) 21
              :: (unit, unit, unit, unit, nat) pluginEntry"
  let ?c = "mockEntry ''c'' (Some (errorString ''boom'')) 30
              :: (unit, unit, unit, unit, nat) pluginEntry"
  let ?d = "mockEntry ''d'' None 40 :: (unit, unit, unit, unit, nat) pluginEntry"
  let ?pm = "\<lparr>plugins = [?a, ?b, ?c, ?d], initialized = True\<rparr>"
  let ?pm' = "\<lparr>plugins = [?a, ?b, ?d], initialized = True\<rparr>"
  let ?s = "mockAmbient :: (unit, nat) ambient"
  have h1: "plugins ?pm = [?a, ?b] @ ?c # [?d]
       \<and> allSucceed (configs ?s)
            (\<lambda>entry. Plugin.OnToolCall (plugin entry) () ''Bash'' zeroToolInput)
            [?a, ?b] (world ?s) = Some 1
       \<and> \<not> isDisabled (configs ?s) ?c
       \<and> Plugin.OnToolCall (plugin ?c) () ''Bash'' zeroToolInput 1
           = (Some (errorString ''boom''), 2)"
    by (simp add: mockEntry_simps mockAmbient_def)
  have h2: "allSucceed (configs ?s) (\<lambda>entry. Plugin.OnMessage (plugin entry) () ())
        (plugins ?pm') (world ?s) = Some 2"
    by (simp add: mockEntry_simps mockAmbient_def)
  note inst1 = hooks_fail_fast [where pm = ?pm and a = ?s and ctx = "()" and toolName = "''Bash''"
      and input = zeroToolInput and pre = "[?a, ?b]" and e = ?c and post = "[?d]"
      and ?w1.0 = 1 and ?w2.0 = 2 and err = "errorString ''boom''"]
  note inst2 = hooks_fail_fast [where pm = ?pm' and a = ?s and ctx = "()" and msg = "()"
      and w' = 2]
  from inst1 h1 have
    "OnToolCall ?pm () ''Bash'' zeroToolInput ?s =
      (Some (errorfNamed ''plugin '' (Name (plugin ?c)) '' rejected tool call: ''
         (errorString ''boom'')),
       ?s\<lparr>world := 2,
          calls := calls ?s @ map (callOf (configs ?s) OnToolCallHook)
                                (enabledEntries (configs ?s) [?a, ?b])
                    @ [callOf (configs ?s) OnToolCallHook ?c]\<rparr>)"
    by blast
  then have c1: "OnToolCall ?pm () ''Bash'' zeroToolInput ?s =
   (Some (wrapError (''plugin '' @ quoted ''c'' @ '' rejected tool call: boom'')
            (errorString ''boom'')),
    \<lparr>world = 2,
     calls = [\<lparr>callee = ''a'', hook = OnToolCallHook, whileDisabled = False\<rparr>,
              \<lparr>callee = ''c'', hook = OnToolCallHook, whileDisabled = False\<rparr>],
     configs = mockConfigs, allocated = 0\<rparr>)"
    by (simp add: mockEntry_simps errorfNamed_def mockAmbient_def)
  from inst2 h2 have
    "OnMessage ?pm' () () ?s =
      (None, ?s\<lparr>world := 2,
                calls := calls ?s @ map (callOf (configs ?s) OnMessageHook)
                                      (enabledEntries (configs ?s) (plugins ?pm'))\<rparr>)"
    by blast
  then have c2: "OnMessage ?pm' () () ?s =
   (None,
    \<lparr>world = 2,
     calls = [\<lparr>callee = ''a'', hook = OnMessageHook, whileDisabled = False\<rparr>,
              \<lparr>callee = ''d'', hook = OnMessageHook, whileDisabled = False\<rparr>],
     configs = mockConfigs, allocated = 0\<rparr>)"
    by (simp add: mockEntry_simps mockAmbient_def)
  from c1 c2 show ?thesis by (rule conjI)
qed

subsection \<open>Shutdown\<close>

lemma failuresOf_simps [simp]:
  "failuresOf [] = []"
  "failuresOf ((entry, None) # results) = failuresOf results"
  "failuresOf ((entry, Some err) # results) =
     errorfNamed ''failed to shutdown plugin '' (Name (plugin entry)) '': '' err
       # failuresOf results"
  by (simp_all add: failuresOf_def)

lemma shutdownLoop_eq:
  "shutdownLoop ctx entries lastErr a =
     ((case lastFailure (fst (shutdownResults ctx entries (world a))) of
         None \<Rightarrow> lastErr
       | Some err \<Rightarrow> Some err),
      a\<lparr>world := snd (shutdownResults ctx entries (world a)),
        calls := calls a @ map (callOf (configs a) ShutdownHook) entries\<rparr>)"
proof (induction entries arbitrary: lastErr a)
  case Nil
  show ?case by (cases a) (simp add: lastFailure_def)
next
  case (Cons e entries)
  obtain res w0 where h: "Plugin.Shutdown (plugin e) ctx (world a) = (res, w0)"
    by (cases "Plugin.Shutdown (plugin e) ctx (world a)")
  obtain results w1 where r: "shutdownResults ctx entries w0 = (results, w1)"
    by (cases "shutdownResults ctx entries w0")
  show ?case
  proof (cases res)
    case None
    with h r show ?thesis
      by (simp add: invoke_def Cons.IH lastFailure_def)
  next
    case (Some err)
    with h r show ?thesis
      by (simp add: invoke_def Cons.IH lastFailure_def)
  qed
qed

lemma shutdownResults_entries:
  "map fst (fst (shutdownResults ctx entries w)) = entries"
proof (induction entries arbitrary: w)
  case Nil
  show ?case by simp
next
  case (Cons e entries)
  obtain res w0 where h: "Plugin.Shutdown (plugin e) ctx w = (res, w0)"
    by (cases "Plugin.Shutdown (plugin e) ctx w")
  obtain results w1 where r: "shutdownResults ctx entries w0 = (results, w1)"
    by (cases "shutdownResults ctx entries w0")
  from Cons.IH [of w0] r have "map fst results = entries" by simp
  with h r show ?case by simp
qed

lemma Shutdown_eq:
  "Shutdown pm ctx a =
     (lastFailure (fst (shutdownResults ctx (rev (plugins pm)) (world a))),
      pm\<lparr>initialized := False\<rparr>,
      a\<lparr>world := snd (shutdownResults ctx (rev (plugins pm)) (world a)),
        calls := calls a @ map (callOf (configs a) ShutdownHook) (rev (plugins pm))\<rparr>)"
  by (simp add: Shutdown_def shutdownLoop_eq split: option.splits)

lemma shutdown_example:
  "registerAll NewPluginManager [(p\<lparr>Name := ''A''\<rparr>, Some 0), (p\<lparr>Name := ''B''\<rparr>, Some 1)]
     (a\<lparr>calls := [],
        configs := (configs a)(Given 0 := c\<lparr>Priority := 50\<rparr>, Given 1 := c\<lparr>Priority := 100\<rparr>)\<rparr>)
     = Some (pm, a') \<Longrightarrow>
   map callee (calls (snd (snd (Shutdown pm ctx a')))) = [''B'', ''A'']"
  by (auto simp: Shutdown_eq Register_def NewPluginManager_def Let_def callOf_def)

text \<open>
  C10. Shutdown calls the Shutdown hook of every entry, disabled or not, in the reverse
  of the registry order, whatever the hooks return; it returns the last error that a hook
  returned, wrapped with the plugin's name, or nil when none failed; and it clears the
  initialized flag, so that the next Initialize runs its loop again. In every manager
  that the operations can reach the reverse of the registry order is the descending order
  of the priorities. After registering A with priority 50 and B with priority 100,
  Shutdown calls B's hook before A's.
\<close>

theorem Shutdown_reverse_best_effort:
  "Shutdown pm ctx a =
     (lastFailure (fst (shutdownResults ctx (rev (plugins pm)) (world a))),
      pm\<lparr>initialized := False\<rparr>,
      a\<lparr>world := snd (shutdownResults ctx (rev (plugins pm)) (world a)),
        calls := calls a @ map (callOf (configs a) ShutdownHook) (rev (plugins pm))\<rparr>)
   \<and> map fst (fst (shutdownResults ctx entries w)) = entries
   \<and> (Shutdown pm ctx a = (lastErr, pm', a') \<longrightarrow>
        Initialize pm' ctx2 a' =
          (case forEachEnabled (\<lambda>entry. Plugin.Initialize (plugin entry) ctx2) InitializeHook
                  (\<lambda>name. errorfNamed ''failed to initialize plugin '' name '': '')
                  (plugins pm) a' of
             (Some err, a'') \<Rightarrow> (Some err, pm', a'')
           | (None, a'') \<Rightarrow> (None, pm'\<lparr>initialized := True\<rparr>, a'')))
   \<and> sorted_wrt (\<lambda>x y. x \<ge> y)
        (map priority (rev (plugins (fst (performAll ops (NewPluginManager, a0))))))
   \<and> (registerAll NewPluginManager
         [(p\<lparr>Name := ''A''\<rparr>, Some 0), (p\<lparr>Name := ''B''\<rparr>, Some 1)]
         (b\<lparr>calls := [],
            configs := (configs b)
              (Given 0 := c\<lparr>Priority := 50\<rparr>, Given 1 := c\<lparr>Priority := 100\<rparr>)\<rparr>)
         = Some (pmAB, aAB) \<longrightarrow>
       map callee (calls (snd (snd (Shutdown pmAB ctx aAB)))) = [''B'', ''A''])"
proof (intro conjI impI)
  show "Shutdown pm ctx a =
     (lastFailure (fst (shutdownResults ctx (rev (plugins pm)) (world a))),
      pm\<lparr>initialized := False\<rparr>,
      a\<lparr>world := snd (shutdownResults ctx (rev (plugins pm)) (world a)),
        calls := calls a @ map (callOf (configs a) ShutdownHook) (rev (plugins pm))\<rparr>)"
    by (rule Shutdown_eq)
  show "map fst (fst (shutdownResults ctx entries w)) = entries"
    by (rule shutdownResults_entries)
  show "Initialize pm' ctx2 a' =
          (case forEachEnabled (\<lambda>entry. Plugin.Initialize (plugin entry) ctx2) InitializeHook
                  (\<lambda>name. errorfNamed ''failed to initialize plugin '' name '': '')
                  (plugins pm) a' of
             (Some err, a'') \<Rightarrow> (Some err, pm', a'')
           | (None, a'') \<Rightarrow> (None, pm'\<lparr>initialized := True\<rparr>, a''))"
    if "Shutdown pm ctx a = (lastErr, pm', a')"
    using that by (auto simp: Shutdown_eq Initialize_def)
  have "sorted (map priority (plugins (fst (performAll ops (NewPluginManager, a0)))))"
    using reachable_wellOrdered [of ops a0] by (simp add: wellOrdered_def)
  then have "sorted_wrt (\<lambda>x y. x \<ge> y)
        (rev (map priority (plugins (fst (performAll ops (NewPluginManager, a0))))))"
    by (simp add: sorted_wrt_rev)
  then show "sorted_wrt (\<lambda>x y. x \<ge> y)
        (map priority (rev (plugins (fst (performAll ops (NewPluginManager, a0))))))"
    by (simp add: rev_map)
  show "map callee (calls (snd (snd (Shutdown pmAB ctx aAB)))) = [''B'', ''A'']"
    if "registerAll NewPluginManager
         [(p\<lparr>Name := ''A''\<rparr>, Some 0), (p\<lparr>Name := ''B''\<rparr>, Some 1)]
         (b\<lparr>calls := [],
            configs := (configs b)
              (Given 0 := c\<lparr>Priority := 50\<rparr>, Given 1 := c\<lparr>Priority := 100\<rparr>)\<rparr>)
         = Some (pmAB, aAB)"
    using that by (rule shutdown_example)
qed

theorem Shutdown_reverse_best_effort_witness:
  "Shutdown
     \<lparr>plugins = [mockEntry ''a'' (Some (errorString ''first'')) 10
                   :: (unit, unit, unit, unit, nat) pluginEntry,
                 mockEntry ''b'' (Some (errorString ''second'')) 21,
                 mockEntry ''d'' None 40],
      initialized = True\<rparr>
     () mockAmbient =
   (Some (wrapError (''failed to shutdown plugin '' @ quoted ''a'' @ '': first'')
            (errorString ''first'')),
    \<lparr>plugins = [mockEntry ''a'' (Some (errorString ''first'')) 10,
                mockEntry ''b'' (Some (errorString ''second'')) 21,
                mockEntry ''d'' None 40],
     initialized = False\<rparr>,
    \<lparr>world = 3,
     calls = [\<lparr>callee = ''d'', hook = ShutdownHook, whileDisabled = False\<rparr>,
              \<lparr>callee = ''b'', hook = ShutdownHook, whileDisabled = True\<rparr>,
              \<lparr>callee = ''a'', hook = ShutdownHook, whileDisabled = False\<rparr>],
     configs = mockConfigs, allocated = 0\<rparr>)
   \<and> Initialize
     \<lparr>plugins = [mockEntry ''a'' (Some (errorString ''first'')) 10
                   :: (unit, unit, unit, unit, nat) pluginEntry,
                 mockEntry ''b'' (Some (errorString ''second'')) 21,
                 mockEntry ''d'' None 40],
      initialized = False\<rparr>
     ()
     \<lparr>world = 3,
      calls = [\<lparr>callee = ''d'', hook = ShutdownHook, whileDisabled = False\<rparr>,
               \<lparr>callee = ''b'', hook = ShutdownHook, whileDisabled = True\<rparr>,
               \<lparr>callee = ''a'', hook = ShutdownHook, whileDisabled = False\<rparr>],
      configs = mockConfigs :: configRef \<Rightarrow> unit PluginConfig, allocated = 0\<rparr> =
   (Some (wrapError (''failed to initialize plugin '' @ quoted ''a'' @ '': first'')
            (errorString ''first'')),
    \<lparr>plugins = [mockEntry ''a'' (Some (errorString ''first'')) 10,
                mockEntry ''b'' (Some (errorString ''second'')) 21,
                mockEntry ''d'' None 40],
     initialized = False\<rparr>,
    \<lparr>world = 4,
     calls = [\<lparr>callee = ''d'', hook = ShutdownHook, whileDisabled = False\<rparr>,
              \<lparr>callee = ''b'', hook = ShutdownHook, whileDisabled = True\<rparr>,
              \<lparr>callee = ''a'', hook = ShutdownHook, whileDisabled = False\<rparr>,
              \<lparr>callee = ''a'', hook = InitializeHook, whileDisabled = False\<rparr>],
     configs = mockConfigs, allocated = 0\<rparr>)"
proof -
  let ?a = "mockEntry ''a'' (Some (errorString ''first'')) 10
              :: (unit, unit, unit, unit, nat) pluginEntry"
  let ?b = "mockEntry ''b'' (Some (errorString ''second'')) 21
              :: (unit, unit, unit, unit, nat) pluginEntry"
  let ?d = "mockEntry ''d'' None 40 :: (unit, unit, unit, unit, nat) pluginEntry"
  let ?pm = "\<lparr>plugins = [?a, ?b, ?d], initialized = True\<rparr>"
  let ?pm' = "\<lparr>plugins = [?a, ?b, ?d], initialized = False\<rparr>"
  let ?s = "mockAmbient :: (unit, nat) ambient"
  let ?s' = "\<lparr>world = 3 :: nat,
     calls = [\<lparr>callee = ''d'', hook = ShutdownHook, whileDisabled = False\<rparr>,
              \<lparr>callee = ''b'', hook = ShutdownHook, whileDisabled = True\<rparr>,
              \<lparr>callee = ''a'', hook = ShutdownHook, whileDisabled = False\<rparr>],
     configs = mockConfigs :: configRef \<Rightarrow> unit PluginConfig, allocated = 0\<rparr>"
  let ?err = "Some (wrapError (''failed to shutdown plugin '' @ quoted ''a'' @ '': first'')
            (errorString ''first''))"
  note inst = Shutdown_reverse_best_effort [where pm = ?pm and ctx = "()" and a = ?s
      and lastErr = ?err and pm' = ?pm' and a' = ?s' and ?ctx2.0 = "()"]
  have c1: "Shutdown ?pm () ?s = (?err, ?pm', ?s')"
    using inst [THEN conjunct1]
    by (simp add: mockEntry_simps lastFailure_def errorfNamed_def mockAmbient_def)
  have "Initialize ?pm' () ?s' =
          (case forEachEnabled (\<lambda>entry. Plugin.Initialize (plugin entry) ()) InitializeHook
                  (\<lambda>name. errorfNamed ''failed to initialize plugin '' name '': '')
                  (plugins ?pm) ?s' of
             (Some err, a'') \<Rightarrow> (Some err, ?pm', a'')
           | (None, a'') \<Rightarrow> (None, ?pm'\<lparr>initialized := True\<rparr>, a''))"
    using inst [THEN conjunct2, THEN conjunct2, THEN conjunct1, rule_format, OF c1] by simp
  then have c2: "Initialize ?pm' () ?s' =
   (Some (wrapError (''failed to initialize plugin '' @ quoted ''a'' @ '': first'')
            (errorString ''first'')),
    ?pm',
    \<lparr>world = 4,
     calls = [\<lparr>callee = ''d'', hook = ShutdownHook, whileDisabled = False\<rparr>,
              \<lparr>callee = ''b'', hook = ShutdownHook, whileDisabled = True\<rparr>,
              \<lparr>callee = ''a'', hook = ShutdownHook, whileDisabled = False\<rparr>,
              \<lparr>callee = ''a'', hook = InitializeHook, whileDisabled = False\<rparr>],
     configs = mockConfigs, allocated = 0\<rparr>)"
    by (simp add: mockEntry_simps invoke_def errorfNamed_def)
  from c1 c2 show ?thesis by (rule conjI)
qed

subsection \<open>Initialize\<close>

lemma Initialize_again:
  "initialized pm \<Longrightarrow> Initialize pm ctx a = (None, pm, a)"
  by (simp add: Initialize_def)

lemma Initialize_first:
  assumes "\<not> initialized pm" and "Initialize pm ctx a = (None, pm1, a1)"
  shows "pm1 = pm\<lparr>initialized := True\<rparr>"
    and "calls a1 = calls a @ map (callOf (configs a) InitializeHook)
                               (enabledEntries (configs a) (plugins pm))"
proof -
  from assms obtain a' where
    f: "forEachEnabled (\<lambda>entry. Plugin.Initialize (plugin entry) ctx) InitializeHook
          (\<lambda>name. errorfNamed ''failed to initialize plugin '' name '': '')
          (plugins pm) a = (None, a')"
    and eq: "pm1 = pm\<lparr>initialized := True\<rparr>" "a1 = a'"
    by (auto simp: Initialize_def split: prod.splits option.splits)
  show "pm1 = pm\<lparr>initialized := True\<rparr>" by fact
  let ?new = "map (callOf (configs a) InitializeHook) (enabledEntries (configs a) (plugins pm))"
  from forEachEnabled_all [OF forEachEnabled_success [OF f], of InitializeHook
      "\<lambda>name. errorfNamed ''failed to initialize plugin '' name '': ''"] f
  have "a' = a\<lparr>world := world a', calls := calls a @ ?new\<rparr>"
    by simp
  then have "calls a' = calls (a\<lparr>world := world a', calls := calls a @ ?new\<rparr>)"
    by (rule arg_cong)
  with eq(2) show "calls a1 = calls a @ ?new"
    by simp
qed

lemma count_distinct_key:
  "distinct (map f xs) \<Longrightarrow> x \<in> set xs \<Longrightarrow> length (filter (\<lambda>y. f y = f x) xs) = 1"
proof (induction xs)
  case Nil
  then show ?case by simp
next
  case (Cons y ys)
  show ?case
  proof (cases "x = y")
    case True
    with Cons.prems have "f x \<notin> f ` set ys" by simp
    then have "f z \<noteq> f x" if "z \<in> set ys" for z
      using that by (metis imageI)
    then have "filter (\<lambda>z. f z = f x) ys = []"
      by (simp add: filter_empty_conv)
    with True show ?thesis by simp
  next
    case False
    with Cons.prems have "x \<in> set ys" and "f y \<noteq> f x"
      by auto
    with Cons show ?thesis by simp
  qed
qed

lemma distinct_enabledEntries:
  "distinct (map f xs) \<Longrightarrow> distinct (map f (enabledEntries store xs))"
  unfolding enabledEntries_def by (rule distinct_map_filter)

text \<open>
  C8. After an Initialize call that succeeds, a second Initialize call returns nil and
  changes nothing: no hook is called. When the manager was not initialized before, the
  two calls together call the Initialize hook of the enabled entries, in registry order,
  once each, and of no other entry; as the names in a registry are distinct, that is one
  Initialize call for the name of each enabled plugin. The names are distinct in every
  manager that the operations can reach.
\<close>

theorem Initialize_idempotent:
  "(Initialize pm ctx a = (None, pm1, a1) \<longrightarrow> Initialize pm1 ctx2 a1 = (None, pm1, a1))
   \<and> (\<not> initialized pm \<and> Initialize pm ctx a = (None, pm1, a1)
       \<and> Initialize pm1 ctx2 a1 = (res2, pm2, a2) \<longrightarrow>
       calls a2 = calls a @ map (callOf (configs a) InitializeHook)
                                (enabledEntries (configs a) (plugins pm))
       \<and> (distinct (map (\<lambda>e. Name (plugin e)) (plugins pm)) \<longrightarrow>
           (\<forall>e \<in> set (plugins pm). \<not> isDisabled (configs a) e \<longrightarrow>
              length (filter (\<lambda>c. callee c = Name (plugin e))
                        (drop (length (calls a)) (calls a2))) = 1)))
   \<and> distinct (map (\<lambda>e. Name (plugin e))
        (plugins (fst (performAll ops (NewPluginManager, a0)))))"
proof (intro conjI impI ballI)
  assume "Initialize pm ctx a = (None, pm1, a1)"
  then have "initialized pm1"
    by (auto simp: Initialize_def split: if_splits prod.splits option.splits)
  then show "Initialize pm1 ctx2 a1 = (None, pm1, a1)"
    by (rule Initialize_again)
next
  assume h: "\<not> initialized pm \<and> Initialize pm ctx a = (None, pm1, a1)
       \<and> Initialize pm1 ctx2 a1 = (res2, pm2, a2)"
  then have "initialized pm1"
    using Initialize_first(1) [of pm ctx a pm1 a1] by simp
  with h have "a2 = a1"
    by (simp add: Initialize_again)
  with h show c: "calls a2 = calls a @ map (callOf (configs a) InitializeHook)
                                (enabledEntries (configs a) (plugins pm))"
    using Initialize_first(2) [of pm ctx a pm1 a1] by simp
  fix e
  assume d: "distinct (map (\<lambda>e. Name (plugin e)) (plugins pm))"
    and e: "e \<in> set (plugins pm)" "\<not> isDisabled (configs a) e"
  from e have "e \<in> set (enabledEntries (configs a) (plugins pm))"
    by (simp add: enabledEntries_def)
  with distinct_enabledEntries [OF d]
  have "length (filter (\<lambda>y. Name (plugin y) = Name (plugin e))
                  (enabledEntries (configs a) (plugins pm))) = 1"
    by (rule count_distinct_key)
  then show "length (filter (\<lambda>c. callee c = Name (plugin e))
                        (drop (length (calls a)) (calls a2))) = 1"
    by (simp add: c filter_map comp_def callOf_def)
next
  show "distinct (map (\<lambda>e. Name (plugin e))
        (plugins (fst (performAll ops (NewPluginManager, a0)))))"
    using reachable_wellOrdered [of ops a0] by (simp add: wellOrdered_def)
qed

theorem Initialize_idempotent_witness:
  "Initialize
     \<lparr>plugins = [mockEntry ''a'' None 10 :: (unit, unit, unit, unit, nat) pluginEntry,
                 mockEntry ''b'' (Some (errorString ''never'')) 21,
                 mockEntry ''d'' None 40],
      initialized = False\<rparr>
     () mockAmbient =
   (None,
    \<lparr>plugins = [mockEntry ''a'' None 10,
                mockEntry ''b'' (Some (errorString ''never'')) 21,
                mockEntry ''d'' None 40],
     initialized = True\<rparr>,
    \<lparr>world = 2,
     calls = [\<lparr>callee = ''a'', hook = InitializeHook, whileDisabled = False\<rparr>,
              \<lparr>callee = ''d'', hook = InitializeHook, whileDisabled = False\<rparr>],
     configs = mockConfigs, allocated = 0\<rparr>)
   \<and> Initialize
     \<lparr>plugins = [mockEntry ''a'' None 10 :: (unit, unit, unit, unit, nat) pluginEntry,
                 mockEntry ''b'' (Some (errorString ''never'')) 21,
                 mockEntry ''d'' None 40],
      initialized = True\<rparr>
     ()
     \<lparr>world = 2,
      calls = [\<lparr>callee = ''a'', hook = InitializeHook, whileDisabled = False\<rparr>,
               \<lparr>callee = ''d'', hook = InitializeHook, whileDisabled = False\<rparr>],
      configs = mockConfigs :: configRef \<Rightarrow> unit PluginConfig, allocated = 0\<rparr> =
   (None,
    \<lparr>plugins = [mockEntry ''a'' None 10,
                mockEntry ''b'' (Some (errorString ''never'')) 21,
                mockEntry ''d'' None 40],
     initialized = True\<rparr>,
    \<lparr>world = 2,
     calls = [\<lparr>callee = ''a'', hook = InitializeHook, whileDisabled = False\<rparr>,
              \<lparr>callee = ''d'', hook = InitializeHook, whileDisabled = False\<rparr>],
     configs = mockConfigs, allocated = 0\<rparr>)"
proof -
  let ?a = "mockEntry ''a'' None 10 :: (unit, unit, unit, unit, nat) pluginEntry"
  let ?b = "mockEntry ''b'' (Some (errorString ''never'')) 21
              :: (unit, unit, unit, unit, nat) pluginEntry"
  let ?d = "mockEntry ''d'' None 40 :: (unit, unit, unit, unit, nat) pluginEntry"
  let ?pm = "\<lparr>plugins = [?a, ?b, ?d], initialized = False\<rparr>"
  let ?pm1 = "\<lparr>plugins = [?a, ?b, ?d], initialized = True\<rparr>"
  let ?s = "mockAmbient :: (unit, nat) ambient"
  let ?s1 = "\<lparr>world = 2 :: nat,
     calls = [\<lparr>callee = ''a'', hook = InitializeHook, whileDisabled = False\<rparr>,
              \<lparr>callee = ''d'', hook = InitializeHook, whileDisabled = False\<rparr>],
     configs = mockConfigs :: configRef \<Rightarrow> unit PluginConfig, allocated = 0\<rparr>"
  have c1: "Initialize ?pm () ?s = (None, ?pm1, ?s1)"
    by (simp add: Initialize_def invoke_def mockEntry_simps mockAmbient_def)
  have c2: "Initialize ?pm1 () ?s1 = (None, ?pm1, ?s1)"
    using Initialize_idempotent [THEN conjunct1, rule_format, OF c1] .
  from c1 c2 show ?thesis by (rule conjI)
qed

subsection \<open>Hooks and disabled entries\<close>

lemma dispatch_calls:
  assumes "forEachEnabled h k wrap entries a = (res, a')"
  shows "\<exists>new. calls a' = calls a @ new
       \<and> (\<forall>c \<in> set new. whileDisabled c \<longrightarrow> hook c = ShutdownHook)"
proof -
  let ?new = "drop (length (calls a)) (calls a')"
  note fc = forEachEnabled_calls [OF assms]
  from fc have c: "calls a' = calls a @ ?new"
    by (metis append_take_drop_id)
  from fc have "prefix ?new
      (map (callOf (configs a) k) (enabledEntries (configs a) entries))"
    by blast
  then have "set ?new \<subseteq>
      set (map (callOf (configs a) k) (enabledEntries (configs a) entries))"
    by (rule set_mono_prefix)
  moreover have "\<forall>c \<in> set (map (callOf (configs a) k) (enabledEntries (configs a) entries)).
      \<not> whileDisabled c"
    by (simp add: callOf_def enabledEntries_def)
  ultimately have "\<forall>c \<in> set ?new. whileDisabled c \<longrightarrow> hook c = ShutdownHook"
    by blast
  with c show ?thesis by blast
qed

lemma Initialize_calls:
  "prefix (drop (length (calls a)) (calls (snd (snd (Initialize pm ctx a)))))
     (map (callOf (configs a) InitializeHook) (enabledEntries (configs a) (plugins pm)))"
proof (cases "initialized pm")
  case True
  then show ?thesis by (simp add: Initialize_def)
next
  case False
  obtain res a' where f:
    "forEachEnabled (\<lambda>entry. Plugin.Initialize (plugin entry) ctx) InitializeHook
      (\<lambda>name. errorfNamed ''failed to initialize plugin '' name '': '')
      (plugins pm) a = (res, a')"
    by (metis surj_pair)
  with False have "snd (snd (Initialize pm ctx a)) = a'"
    by (cases res) (simp_all add: Initialize_def)
  with forEachEnabled_calls [OF f] show ?thesis by simp
qed

lemma dispatch_prefix:
  "prefix (drop (length (calls a)) (calls (snd (forEachEnabled h k wrap entries a))))
     (map (callOf (configs a) k) (enabledEntries (configs a) entries))"
  using forEachEnabled_calls [of h k wrap entries a
      "fst (forEachEnabled h k wrap entries a)" "snd (forEachEnabled h k wrap entries a)"]
  by simp

lemma perform_calls:
  "\<exists>new. calls (snd (perform op s)) = calls (snd s) @ new
     \<and> (\<forall>c \<in> set new. whileDisabled c \<longrightarrow> hook c = ShutdownHook)"
proof -
  obtain pm a where s: "s = (pm, a)" by (cases s)
  have quiet: ?thesis if "calls (snd (perform op s)) = calls a"
    using that s by simp
  show ?thesis
  proof (cases op)
    case (RegisterOp p c)
    have "calls (snd (snd (Register pm p c a))) = calls a"
      by (auto simp: Register_def newConfig_def Let_def split: option.splits)
    with RegisterOp s quiet show ?thesis by simp
  next
    case (SetEnabledOp name b)
    have "calls (snd (snd (SetEnabled pm name b a))) = calls a"
      by (cases "enableNamed name b (plugins pm) a")
        (auto simp: SetEnabled_def dest: enableNamed_keys)
    with SetEnabledOp s quiet show ?thesis by simp
  next
    case (InitializeOp ctx)
    show ?thesis
    proof (cases "initialized pm")
      case True
      with InitializeOp s show ?thesis by (simp add: Initialize_def)
    next
      case False
      obtain res a' where f:
        "forEachEnabled (\<lambda>entry. Plugin.Initialize (plugin entry) ctx) InitializeHook
          (\<lambda>name. errorfNamed ''failed to initialize plugin '' name '': '')
          (plugins pm) a = (res, a')"
        by (metis surj_pair)
      with False InitializeOp s have "snd (perform op s) = a'"
        by (cases res) (simp_all add: Initialize_def)
      with dispatch_calls [OF f] s show ?thesis by simp
    qed
  next
    case (OnToolCallOp ctx toolName input)
    obtain res a' where f: "OnToolCall pm ctx toolName input a = (res, a')"
      by (metis surj_pair)
    then show ?thesis
      using dispatch_calls [OF f [unfolded OnToolCall_def]] s OnToolCallOp by simp
  next
    case (OnMessageOp ctx msg)
    obtain res a' where f: "OnMessage pm ctx msg a = (res, a')"
      by (metis surj_pair)
    then show ?thesis
      using dispatch_calls [OF f [unfolded OnMessage_def]] s OnMessageOp by simp
  next
    case (OnCompleteOp ctx result)
    obtain res a' where f: "OnComplete pm ctx result a = (res, a')"
      by (metis surj_pair)
    then show ?thesis
      using dispatch_calls [OF f [unfolded OnComplete_def]] s OnCompleteOp by simp
  next
    case (ShutdownOp ctx)
    with s have "calls (snd (perform op s)) =
        calls (snd s) @ map (callOf (configs a) ShutdownHook) (rev (plugins pm))"
      by (simp add: Shutdown_eq)
    moreover have "\<forall>c \<in> set (map (callOf (configs a) ShutdownHook) (rev (plugins pm))).
        whileDisabled c \<longrightarrow> hook c = ShutdownHook"
      by (simp add: callOf_def)
    ultimately show ?thesis by blast
  qed (use s quiet in simp_all)
qed

lemma performAll_calls:
  "\<exists>new. calls (snd (performAll ops s)) = calls (snd s) @ new
     \<and> (\<forall>c \<in> set new. whileDisabled c \<longrightarrow> hook c = ShutdownHook)"
  unfolding performAll_def
proof (induction ops arbitrary: s)
  case Nil
  show ?case by simp
next
  case (Cons op ops)
  from perform_calls [of op s] obtain new1 where
    n1: "calls (snd (perform op s)) = calls (snd s) @ new1"
    "\<forall>c \<in> set new1. whileDisabled c \<longrightarrow> hook c = ShutdownHook"
    by blast
  from Cons.IH [of "perform op s"] obtain new2 where
    n2: "calls (snd (foldl (\<lambda>s' op. perform op s') (perform op s) ops)) =
         calls (snd (perform op s)) @ new2"
    "\<forall>c \<in> set new2. whileDisabled c \<longrightarrow> hook c = ShutdownHook"
    by blast
  from n1 n2 have "calls (snd (foldl (\<lambda>s' op. perform op s') s (op # ops))) =
      calls (snd s) @ (new1 @ new2)
    \<and> (\<forall>c \<in> set (new1 @ new2). whileDisabled c \<longrightarrow> hook c = ShutdownHook)"
    by auto
  then show ?case by blast
qed

text \<open>
  SetEnabled writes the flag through the pointer of the entry that it finds: afterwards
  the entries that share the object of that entry are all enabled, or all disabled, and
  the other entries are as they were.
\<close>

lemma enableNamed_effect:
  "enableNamed name enabled xs a = Some (ys, a') \<Longrightarrow>
   \<exists>e. find (\<lambda>e. Name (plugin e) = name) ys = Some e
     \<and> config e \<noteq> None
     \<and> (\<forall>store. isDisabled store e = (\<not> Enabled (store (the (config e)))))
     \<and> Enabled (configs a' (the (config e))) = enabled
     \<and> (\<forall>r. r \<noteq> the (config e) \<longrightarrow> configs a' r = configs a r)"
proof (induction xs arbitrary: ys)
  case Nil
  then show ?case by simp
next
  case (Cons x xs)
  show ?case
  proof (cases "Name (plugin x) = name")
    case True
    with Cons.prems show ?thesis
      by (cases "config x") (auto simp: newConfig_def isDisabled_def)
  next
    case False
    with Cons.prems obtain zs where zs: "enableNamed name enabled xs a = Some (zs, a')"
      and ys: "ys = x # zs"
      by auto
    from Cons.IH [OF zs] ys False show ?thesis by simp
  qed
qed

lemma SetEnabled_effect:
  assumes "SetEnabled pm name enabled a = (None, pm', a')"
    and "find (\<lambda>e. Name (plugin e) = name) (plugins pm') = Some e"
  shows "isDisabled (configs a') e' =
     (if config e' = config e then \<not> enabled else isDisabled (configs a) e')"
proof -
  from assms(1) have en: "enableNamed name enabled (plugins pm) a = Some (plugins pm', a')"
    by (auto simp: SetEnabled_def split: option.splits)
  from enableNamed_effect [OF en] assms(2) obtain r where
    r: "config e = Some r" "Enabled (configs a' r) = enabled"
    "\<forall>r'. r' \<noteq> r \<longrightarrow> configs a' r' = configs a r'"
    by auto
  show ?thesis
  proof (cases "config e'")
    case None
    with r show ?thesis by (simp add: isDisabled_def)
  next
    case (Some r')
    with r show ?thesis by (cases "r' = r") (simp_all add: isDisabled_def)
  qed
qed

text \<open>
  C2. The claim that no operation calls a hook of a plugin whose entry is disabled at the
  time of the call fails for Shutdown: registering a plugin with a disabled configuration
  and shutting the manager down calls the plugin's Shutdown hook.
\<close>

theorem Shutdown_calls_disabled_plugin:
  "calls (snd (performAll
     [RegisterOp (Some (mockPlugin ''audit'' None)) (Some 1), ShutdownOp ()]
     (NewPluginManager :: (unit, unit, unit, unit, nat) PluginManager,
      mockAmbient :: (unit, nat) ambient))) =
   [\<lparr>callee = ''audit'', hook = ShutdownHook, whileDisabled = True\<rparr>]
   \<and> \<not> Enabled (configs (mockAmbient :: (unit, nat) ambient) (Given 1))"
  by (simp add: performAll_def Register_def NewPluginManager_def Let_def Shutdown_eq
      callOf_def isDisabled_def mockPlugin_def mockAmbient_def mockConfigs_def)

text \<open>
  C2, amended. Whatever operations are applied to a manager, every call of an Initialize,
  OnToolCall, OnMessage or OnComplete hook is made on an entry that is enabled at the time
  of the call: a call made on a disabled entry is a call of the Shutdown hook. Each of
  Initialize, OnToolCall, OnMessage and OnComplete calls hooks of entries that are
  enabled when the operation starts, in registry order, and of no other entry. Shutdown
  calls the Shutdown hook of every entry, disabled or not. SetEnabled sets the flag of the
  configuration that the entry of the given name points to: from then on the entries that
  point to that configuration are all disabled, or all enabled, and the other entries are
  as they were.
\<close>

theorem disabled_plugins_receive_only_Shutdown:
  "(\<forall>c \<in> set (drop (length (calls a)) (calls (snd (performAll ops (pm, a))))).
      whileDisabled c \<longrightarrow> hook c = ShutdownHook)
   \<and> prefix (drop (length (calls a)) (calls (snd (snd (Initialize pm ctx a)))))
       (map (callOf (configs a) InitializeHook) (enabledEntries (configs a) (plugins pm)))
   \<and> prefix (drop (length (calls a)) (calls (snd (OnToolCall pm ctx toolName input a))))
       (map (callOf (configs a) OnToolCallHook) (enabledEntries (configs a) (plugins pm)))
   \<and> prefix (drop (length (calls a)) (calls (snd (OnMessage pm ctx msg a))))
       (map (callOf (configs a) OnMessageHook) (enabledEntries (configs a) (plugins pm)))
   \<and> prefix (drop (length (calls a)) (calls (snd (OnComplete pm ctx result a))))
       (map (callOf (configs a) OnCompleteHook) (enabledEntries (configs a) (plugins pm)))
   \<and> calls (snd (snd (Shutdown pm ctx a))) =
       calls a @ map (callOf (configs a) ShutdownHook) (rev (plugins pm))
   \<and> (SetEnabled pm name enabled a = (None, pm', a')
       \<and> find (\<lambda>entry. Name (plugin entry) = name) (plugins pm') = Some e \<longrightarrow>
       isDisabled (configs a') e' =
         (if config e' = config e then \<not> enabled else isDisabled (configs a) e'))"
proof (intro conjI impI ballI)
  fix c
  assume c: "c \<in> set (drop (length (calls a)) (calls (snd (performAll ops (pm, a)))))"
    and d: "whileDisabled c"
  from performAll_calls [of ops "(pm, a)"] obtain new where
    "calls (snd (performAll ops (pm, a))) = calls a @ new"
    "\<forall>c \<in> set new. whileDisabled c \<longrightarrow> hook c = ShutdownHook"
    by auto
  with c d show "hook c = ShutdownHook" by simp
next
  show "prefix (drop (length (calls a)) (calls (snd (snd (Initialize pm ctx a)))))
       (map (callOf (configs a) InitializeHook) (enabledEntries (configs a) (plugins pm)))"
    by (rule Initialize_calls)
  show "prefix (drop (length (calls a)) (calls (snd (OnToolCall pm ctx toolName input a))))
       (map (callOf (configs a) OnToolCallHook) (enabledEntries (configs a) (plugins pm)))"
    unfolding OnToolCall_def by (rule dispatch_prefix)
  show "prefix (drop (length (calls a)) (calls (snd (OnMessage pm ctx msg a))))
       (map (callOf (configs a) OnMessageHook) (enabledEntries (configs a) (plugins pm)))"
    unfolding OnMessage_def by (rule dispatch_prefix)
  show "prefix (drop (length (calls a)) (calls (snd (OnComplete pm ctx result a))))
       (map (callOf (configs a) OnCompleteHook) (enabledEntries (configs a) (plugins pm)))"
    unfolding OnComplete_def by (rule dispatch_prefix)
  show "calls (snd (snd (Shutdown pm ctx a))) =
       calls a @ map (callOf (configs a) ShutdownHook) (rev (plugins pm))"
    by (simp add: Shutdown_eq)
next
  assume "SetEnabled pm name enabled a = (None, pm', a')
       \<and> find (\<lambda>entry. Name (plugin entry) = name) (plugins pm') = Some e"
  then show "isDisabled (configs a') e' =
         (if config e' = config e then \<not> enabled else isDisabled (configs a) e')"
    using SetEnabled_effect [of pm name enabled a pm' a' e e'] by blast
qed

theorem disabled_plugins_receive_only_Shutdown_witness:
  "calls (snd (performAll
     [RegisterOp (Some (mockPlugin ''a'' None)) (Some 2),
      RegisterOp (Some (mockPlugin ''b'' None)) (Some 2),
      RegisterOp (Some (mockPlugin ''c'' None)) None,
      OnToolCallOp () ''Bash'' zeroToolInput,
      SetEnabledOp ''a'' False,
      OnMessageOp () (),
      SetEnabledOp ''b'' True,
      OnCompleteOp () (),
      WriteConfigOp 2 \<lparr>Enabled = False, Priority = 2, Config = Map.empty\<rparr>,
      InitializeOp (),
      ShutdownOp ()]
     (NewPluginManager :: (unit, unit, unit, unit, nat) PluginManager,
      mockAmbient :: (unit, nat) ambient))) =
   [\<lparr>callee = ''a'', hook = OnToolCallHook, whileDisabled = False\<rparr>,
    \<lparr>callee = ''b'', hook = OnToolCallHook, whileDisabled = False\<rparr>,
    \<lparr>callee = ''c'', hook = OnToolCallHook, whileDisabled = False\<rparr>,
    \<lparr>callee = ''c'', hook = OnMessageHook, whileDisabled = False\<rparr>,
    \<lparr>callee = ''a'', hook = OnCompleteHook, whileDisabled = False\<rparr>,
    \<lparr>callee = ''b'', hook = OnCompleteHook, whileDisabled = False\<rparr>,
    \<lparr>callee = ''c'', hook = OnCompleteHook, whileDisabled = False\<rparr>,
    \<lparr>callee = ''c'', hook = InitializeHook, whileDisabled = False\<rparr>,
    \<lparr>callee = ''c'', hook = ShutdownHook, whileDisabled = False\<rparr>,
    \<lparr>callee = ''b'', hook = ShutdownHook, whileDisabled = True\<rparr>,
    \<lparr>callee = ''a'', hook = ShutdownHook, whileDisabled = True\<rparr>]
   \<and> whileDisabled \<lparr>callee = ''b'', hook = ShutdownHook, whileDisabled = True\<rparr>
   \<and> hook \<lparr>callee = ''b'', hook = ShutdownHook, whileDisabled = True\<rparr> = ShutdownHook
   \<and> isDisabled
        (configs (snd (snd (SetEnabled
           \<lparr>plugins = [mockEntry ''a'' None 2 :: (unit, unit, unit, unit, nat) pluginEntry,
                       mockEntry ''b'' None 2, mockEntry ''d'' None 40],
            initialized = False\<rparr>
           ''a'' False (mockAmbient :: (unit, nat) ambient)))))
        (mockEntry ''b'' None 2 :: (unit, unit, unit, unit, nat) pluginEntry)
   \<and> \<not> isDisabled
        (configs (snd (snd (SetEnabled
           \<lparr>plugins = [mockEntry ''a'' None 2 :: (unit, unit, unit, unit, nat) pluginEntry,
                       mockEntry ''b'' None 2, mockEntry ''d'' None 40],
            initialized = False\<rparr>
           ''a'' False (mockAmbient :: (unit, nat) ambient)))))
        (mockEntry ''d'' None 40 :: (unit, unit, unit, unit, nat) pluginEntry)"
proof -
  let ?ops = "[RegisterOp (Some (mockPlugin ''a'' None)) (Some 2),
      RegisterOp (Some (mockPlugin ''b'' None)) (Some 2),
      RegisterOp (Some (mockPlugin ''c'' None)) None,
      OnToolCallOp () ''Bash'' zeroToolInput,
      SetEnabledOp ''a'' False,
      OnMessageOp () (),
      SetEnabledOp ''b'' True,
      OnCompleteOp () (),
      WriteConfigOp 2 \<lparr>Enabled = False, Priority = 2, Config = Map.empty\<rparr>,
      InitializeOp (),
      ShutdownOp ()] :: (unit, unit, unit, unit, nat) operation list"
  let ?init = "(NewPluginManager :: (unit, unit, unit, unit, nat) PluginManager,
      mockAmbient :: (unit, nat) ambient)"
  let ?c = "\<lparr>callee = ''b'', hook = ShutdownHook, whileDisabled = True\<rparr>"
  let ?a = "mockEntry ''a'' None 2 :: (unit, unit, unit, unit, nat) pluginEntry"
  let ?b = "mockEntry ''b'' None 2 :: (unit, unit, unit, unit, nat) pluginEntry"
  let ?d = "mockEntry ''d'' None 40 :: (unit, unit, unit, unit, nat) pluginEntry"
  let ?pm = "\<lparr>plugins = [?a, ?b, ?d], initialized = False\<rparr>"
  let ?s = "mockAmbient :: (unit, nat) ambient"
  let ?s' = "?s\<lparr>configs := (configs ?s)(Given 2 := (configs ?s (Given 2))\<lparr>Enabled := False\<rparr>)\<rparr>"
  have run: "calls (snd (performAll ?ops ?init)) =
   [\<lparr>callee = ''a'', hook = OnToolCallHook, whileDisabled = False\<rparr>,
    \<lparr>callee = ''b'', hook = OnToolCallHook, whileDisabled = False\<rparr>,
    \<lparr>callee = ''c'', hook = OnToolCallHook, whileDisabled = False\<rparr>,
    \<lparr>callee = ''c'', hook = OnMessageHook, whileDisabled = False\<rparr>,
    \<lparr>callee = ''a'', hook = OnCompleteHook, whileDisabled = False\<rparr>,
    \<lparr>callee = ''b'', hook = OnCompleteHook, whileDisabled = False\<rparr>,
    \<lparr>callee = ''c'', hook = OnCompleteHook, whileDisabled = False\<rparr>,
    \<lparr>callee = ''c'', hook = InitializeHook, whileDisabled = False\<rparr>,
    \<lparr>callee = ''c'', hook = ShutdownHook, whileDisabled = False\<rparr>,
    ?c,
    \<lparr>callee = ''a'', hook = ShutdownHook, whileDisabled = True\<rparr>]"
    by (simp add: performAll_def Register_def NewPluginManager_def Let_def Shutdown_eq
        Initialize_def OnToolCall_def OnMessage_def OnComplete_def SetEnabled_def
        invoke_def callOf_def isDisabled_def mockPlugin_def mockAmbient_def mockConfigs_def
        newConfig_def)
  note inst = disabled_plugins_receive_only_Shutdown [where a = ?s and pm = NewPluginManager
      and ops = ?ops and name = "''a''" and enabled = False and pm' = ?pm and a' = ?s'
      and e = ?a]
  have "calls ?s = []" by (simp add: mockAmbient_def)
  with run have "?c \<in> set (drop (length (calls ?s)) (calls (snd (performAll ?ops ?init))))"
    by simp
  with inst [THEN conjunct1]
  have "whileDisabled ?c \<longrightarrow> hook ?c = ShutdownHook"
    by blast
  moreover have wd: "whileDisabled ?c" by simp
  ultimately have hk: "hook ?c = ShutdownHook" by blast
  have se: "SetEnabled ?pm ''a'' False ?s = (None, ?pm, ?s')"
    by (simp add: SetEnabled_def mockEntry_def mockPlugin_def)
  have fd: "find (\<lambda>entry. Name (plugin entry) = ''a'') (plugins ?pm) = Some ?a"
    by (simp add: mockEntry_simps)
  note eff = disabled_plugins_receive_only_Shutdown [where pm = ?pm and a = ?s
      and name = "''a''" and enabled = False and pm' = ?pm and a' = ?s' and e = ?a,
      THEN conjunct2, THEN conjunct2, THEN conjunct2, THEN conjunct2, THEN conjunct2,
      THEN conjunct2, rule_format, OF conjI [OF se fd]]
  from eff [of ?b] have "isDisabled (configs ?s') ?b"
    by (simp add: mockEntry_def)
  then have b: "isDisabled (configs (snd (snd (SetEnabled ?pm ''a'' False ?s)))) ?b"
    unfolding se snd_conv .
  from eff [of ?d] have "\<not> isDisabled (configs ?s') ?d"
    by (simp add: mockEntry_def mockAmbient_def isDisabled_def mockConfigs_def)
  then have d: "\<not> isDisabled (configs (snd (snd (SetEnabled ?pm ''a'' False ?s)))) ?d"
    unfolding se snd_conv .
  from run wd hk b d show ?thesis by (intro conjI)
qed

subsection \<open>The objects that the manager allocates\<close>

text \<open>
  An entry of a manager that the operations can reach points to an object of the caller
  or to an object that the manager has allocated before, so that the object of the next
  allocation is one that no entry points to.
\<close>

lemma enableNamed_refs:
  "enableNamed name b xs a = Some (ys, a') \<Longrightarrow>
   allocated a \<le> allocated a'
   \<and> (\<forall>y \<in> set ys. y \<in> set xs \<or> config y = Some (Default (allocated a)) \<and> allocated a < allocated a')"
proof (induction xs arbitrary: ys)
  case Nil
  then show ?case by simp
next
  case (Cons x xs)
  show ?case
  proof (cases "Name (plugin x) = name")
    case True
    with Cons.prems show ?thesis
      by (cases "config x") (auto simp: newConfig_def)
  next
    case False
    with Cons.prems obtain zs where zs: "enableNamed name b xs a = Some (zs, a')"
      and ys: "ys = x # zs"
      by auto
    from Cons.IH [OF zs] ys show ?thesis by auto
  qed
qed

lemma ownRefsFresh_iff:
  "ownRefsFresh pm a =
     (\<forall>e \<in> set (plugins pm). \<forall>n. config e = Some (Default n) \<longrightarrow> n < allocated a)"
  unfolding ownRefsFresh_def list_all_iff
  by (auto split: option.splits configRef.splits)

lemma ownRefsFresh_mono:
  "ownRefsFresh pm a \<Longrightarrow> set (plugins pm') \<subseteq> set (plugins pm) \<Longrightarrow>
   allocated a \<le> allocated a' \<Longrightarrow> ownRefsFresh pm' a'"
  unfolding ownRefsFresh_iff
  by (meson subsetD less_le_trans)

lemma Register_ownRefsFresh:
  assumes "ownRefsFresh pm a"
  shows "ownRefsFresh (fst (snd (Register pm p c a))) (snd (snd (Register pm p c a)))"
proof (cases "fst (Register pm p c a)")
  case (Some err)
  then have "snd (Register pm p c a) = (pm, a)"
    by (simp add: Register_failure)
  with assms show ?thesis by simp
next
  case None
  then obtain q where p: "p = Some q"
    by (cases p) (auto simp: Register_def)
  let ?pm' = "fst (snd (Register pm p c a))" and ?a' = "snd (snd (Register pm p c a))"
  from None p have r: "Register pm (Some q) c a = (None, ?pm', ?a')"
    by (metis prod.collapse)
  note rs = Register_success [OF r]
  have new: "config (hd (entriesOf (configs a) (allocated a) [(q, c)])) = Some (Default n)
      \<Longrightarrow> n < allocated ?a'" for n
    using rs(6) by (cases c) auto
  have le: "allocated a \<le> allocated ?a'"
    using rs(6) by (cases c) auto
  from assms have old: "e \<in> set (plugins pm) \<Longrightarrow> config e = Some (Default n)
      \<Longrightarrow> n < allocated ?a'" for e n
    unfolding ownRefsFresh_iff using le by (meson less_le_trans)
  from new old show ?thesis
    unfolding ownRefsFresh_iff rs(1) set_insertEntry by blast
qed

lemma SetEnabled_ownRefsFresh:
  assumes "ownRefsFresh pm a"
  shows "ownRefsFresh (fst (snd (SetEnabled pm name b a))) (snd (snd (SetEnabled pm name b a)))"
proof (cases "enableNamed name b (plugins pm) a")
  case None
  with assms show ?thesis by (simp add: SetEnabled_def)
next
  case (Some r)
  obtain ys a' where r: "r = (ys, a')" by (cases r)
  note refs = enableNamed_refs [OF Some [unfolded r]]
  have "n < allocated a'" if "y \<in> set ys" "config y = Some (Default n)" for y n
  proof (cases "y \<in> set (plugins pm)")
    case True
    with assms that have "n < allocated a"
      unfolding ownRefsFresh_iff by blast
    with refs show ?thesis by simp
  next
    case False
    with refs that show ?thesis by auto
  qed
  then have "ownRefsFresh (pm\<lparr>plugins := ys\<rparr>) a'"
    unfolding ownRefsFresh_iff by simp
  with Some r show ?thesis by (simp add: SetEnabled_def)
qed

lemma Initialize_allocated:
  "allocated (snd (snd (Initialize pm ctx a))) = allocated a"
proof (cases "initialized pm")
  case True
  then show ?thesis by (simp add: Initialize_def)
next
  case False
  obtain res a' where f:
    "forEachEnabled (\<lambda>entry. Plugin.Initialize (plugin entry) ctx) InitializeHook
      (\<lambda>name. errorfNamed ''failed to initialize plugin '' name '': '')
      (plugins pm) a = (res, a')"
    by (metis surj_pair)
  with False have "snd (snd (Initialize pm ctx a)) = a'"
    by (cases res) (simp_all add: Initialize_def)
  with forEachEnabled_calls [OF f] show ?thesis by simp
qed

lemma dispatch_allocated:
  "allocated (snd (forEachEnabled h k wrap entries a)) = allocated a"
  using forEachEnabled_calls [of h k wrap entries a
      "fst (forEachEnabled h k wrap entries a)" "snd (forEachEnabled h k wrap entries a)"]
  by simp

lemma perform_ownRefsFresh:
  assumes "ownRefsFresh (fst s) (snd s)"
  shows "ownRefsFresh (fst (perform op s)) (snd (perform op s))"
proof -
  obtain pm a where s: "s = (pm, a)" by (cases s)
  with assms have f: "ownRefsFresh pm a" by simp
  have same: "ownRefsFresh pm' a'" if "plugins pm' = plugins pm" "allocated a' = allocated a"
    for pm' :: "('a, 'b, 'c, 'd, 'e) PluginManager" and a' :: "('b, 'e) ambient"
    using f that by (simp add: ownRefsFresh_iff)
  show ?thesis
  proof (cases op)
    case (RegisterOp p c)
    with s f show ?thesis by (simp add: Register_ownRefsFresh)
  next
    case (UnregisterOp name)
    show ?thesis
    proof (cases "removeNamed name (plugins pm)")
      case None
      with UnregisterOp s f show ?thesis by (simp add: Unregister_def)
    next
      case (Some ys)
      from removeNamed_keeps [OF Some] have "set ys \<subseteq> set (plugins pm)" by simp
      with f have "ownRefsFresh (pm\<lparr>plugins := ys\<rparr>) a"
        by (auto simp: ownRefsFresh_iff)
      with UnregisterOp s Some show ?thesis by (simp add: Unregister_def)
    qed
  next
    case (SetEnabledOp name b)
    with s f show ?thesis by (simp add: SetEnabled_ownRefsFresh)
  next
    case (InitializeOp ctx)
    with s same [OF Initialize_plugins Initialize_allocated] show ?thesis by simp
  next
    case (OnToolCallOp ctx toolName input)
    with s same [of pm] show ?thesis by (simp add: OnToolCall_def dispatch_allocated)
  next
    case (OnMessageOp ctx msg)
    with s same [of pm] show ?thesis by (simp add: OnMessage_def dispatch_allocated)
  next
    case (OnCompleteOp ctx result)
    with s same [of pm] show ?thesis by (simp add: OnComplete_def dispatch_allocated)
  next
    case (ShutdownOp ctx)
    with s same show ?thesis by (simp add: Shutdown_eq)
  next
    case (WriteConfigOp n cfg)
    with s same [of pm] show ?thesis by simp
  qed (use s f in simp_all)
qed

lemma reachable_ownRefsFresh:
  "ownRefsFresh (fst (performAll ops (NewPluginManager, a)))
     (snd (performAll ops (NewPluginManager, a)))"
proof -
  have "ownRefsFresh (fst s) (snd s) \<Longrightarrow>
        ownRefsFresh (fst (performAll ops s)) (snd (performAll ops s))" for s
    unfolding performAll_def
    by (induction ops arbitrary: s) (simp_all add: perform_ownRefsFresh)
  then show ?thesis
    by (simp add: ownRefsFresh_iff NewPluginManager_def)
qed

end
